theory Spec2Isabelle
  imports Main "HOL-Library.Word" "HOL-Library.AList" "HOL-Library.Sublist"
begin

unbundle bit_operations_syntax

chapter \<open>The model\<close>

section \<open>Data model of the perf event parser (src/quipper/perf\_parser.cc)\<close>

text \<open>
  The model follows perf\_parser.cc function by function. A name of the source that
  ends in an underscore drops it (\<open>process_mappers\<close> is \<open>process_mappers_\<close>), since
  an Isabelle name cannot end in one; the fields \<open>pid\<close>, \<open>tid\<close>, \<open>start\<close> and so on
  of the messages carry the name of their message in front.

  Modelled from the spec: the messages of perf\_data.proto (\<open>PerfEvent\<close>, its header
  and its payloads) and the declarations of perf\_parser.h and dso.h (\<open>ParsedEvent\<close>,
  \<open>DSOAndOffset\<close>, \<open>PerfEventStats\<close>, \<open>PerfParserOptions\<close>, \<open>DSOInfo\<close>) are not
  under src/. The records below have the fields that perf\_parser.cc reads and writes and
  that sections 3 and 6 of the spec list; counters are 32-bit, addresses 64-bit.
\<close>

type_synonym u32 = "32 word"

type_synonym u64 = "64 word"

type_synonym PidTid = "u32 \<times> u32"

text \<open>
  Modelled from the spec: the record types the parser dispatches on. The enum is declared
  in the kernel headers of the repository, not under src/; the constructors are the names the switch
  statements of \<open>ProcessEvents\<close> and \<open>ParseRawEvents\<close> use. \<open>PERF_RECORD_USER\<close>
  stands for every other type at or above \<open>PERF_RECORD_USER_TYPE_START\<close> (all of them
  are handled alike by \<open>ProcessUserEvents\<close>), \<open>PERF_RECORD_UNKNOWN\<close> for every other
  type below it (the \<open>default\<close> case of the switch).
\<close>

datatype perf_event_type =
    PERF_RECORD_SAMPLE
  | PERF_RECORD_MMAP
  | PERF_RECORD_MMAP2
  | PERF_RECORD_FORK
  | PERF_RECORD_EXIT
  | PERF_RECORD_COMM
  | PERF_RECORD_LOST
  | PERF_RECORD_THROTTLE
  | PERF_RECORD_UNTHROTTLE
  | PERF_RECORD_AUX
  | PERF_RECORD_ITRACE_START
  | PERF_RECORD_LOST_SAMPLES
  | PERF_RECORD_SWITCH
  | PERF_RECORD_SWITCH_CPU_WIDE
  | PERF_RECORD_NAMESPACES
  | PERF_RECORD_CGROUP
  | PERF_RECORD_FINISHED_ROUND
  | PERF_RECORD_USER nat
  | PERF_RECORD_UNKNOWN nat

text \<open>\<open>event.header().type() >= PERF_RECORD_USER_TYPE_START\<close>.\<close>

fun is_user_type :: "perf_event_type \<Rightarrow> bool" where
  "is_user_type PERF_RECORD_FINISHED_ROUND = True"
| "is_user_type (PERF_RECORD_USER _) = True"
| "is_user_type _ = False"

record BranchStackEntry =
  from_ip :: u64
  to_ip :: u64
  mispredicted :: bool
  predicted :: bool
  in_transaction :: bool
  abort :: bool
  cycles :: u32

record MMapEvent =
  mmap_pid :: u32
  mmap_tid :: u32
  mmap_start :: u64
  mmap_len :: u64
  mmap_pgoff :: u64
  mmap_filename :: string
  mmap_maj :: u32
  mmap_min :: u32
  mmap_ino :: u64

text \<open>
  \<open>sample_addr\<close> is an optional field: \<open>has_addr()\<close> is \<open>sample_addr s \<noteq> None\<close> and
  \<open>addr()\<close> reads 0 when the field is absent. The parser never asks \<open>has_ip()\<close>, so
  \<open>sample_ip\<close> is the value \<open>ip()\<close> returns.
\<close>

record SampleEvent =
  sample_ip :: u64
  sample_pid :: u32
  sample_tid :: u32
  sample_addr :: "u64 option"
  sample_callchain :: "u64 list"
  sample_branch_stack :: "BranchStackEntry list"

record CommEvent =
  comm_pid :: u32
  comm_tid :: u32
  comm_comm :: string

record ForkEvent =
  fork_pid :: u32
  fork_ppid :: u32
  fork_tid :: u32
  fork_ptid :: u32

text \<open>
  A \<open>PerfEvent\<close> carries a header and one of the payload variants. The header type
  and the payload are independent fields: a record of type SAMPLE need not carry a
  sample payload. \<open>NoPayload\<close> also stands for the variants the parser never reads.
\<close>

datatype event_payload =
    NoPayload
  | MmapPayload MMapEvent
  | SamplePayload SampleEvent
  | CommPayload CommEvent
  | ForkPayload ForkEvent

record PerfEvent =
  header_type :: perf_event_type
  header_misc :: u32
  payload :: event_payload

definition default_MMapEvent :: MMapEvent where
  "default_MMapEvent =
     \<lparr>mmap_pid = 0, mmap_tid = 0, mmap_start = 0, mmap_len = 0, mmap_pgoff = 0,
      mmap_filename = [], mmap_maj = 0, mmap_min = 0, mmap_ino = 0\<rparr>"

definition default_SampleEvent :: SampleEvent where
  "default_SampleEvent =
     \<lparr>sample_ip = 0, sample_pid = 0, sample_tid = 0, sample_addr = None,
      sample_callchain = [], sample_branch_stack = []\<rparr>"

definition default_CommEvent :: CommEvent where
  "default_CommEvent = \<lparr>comm_pid = 0, comm_tid = 0, comm_comm = []\<rparr>"

definition default_ForkEvent :: ForkEvent where
  "default_ForkEvent = \<lparr>fork_pid = 0, fork_ppid = 0, fork_tid = 0, fork_ptid = 0\<rparr>"

text \<open>The protobuf getters: an absent payload reads as the default message.\<close>

definition has_mmap_event :: "PerfEvent \<Rightarrow> bool" where
  "has_mmap_event e = (case payload e of MmapPayload _ \<Rightarrow> True | _ \<Rightarrow> False)"

definition has_sample_event :: "PerfEvent \<Rightarrow> bool" where
  "has_sample_event e = (case payload e of SamplePayload _ \<Rightarrow> True | _ \<Rightarrow> False)"

definition mmap_event :: "PerfEvent \<Rightarrow> MMapEvent" where
  "mmap_event e = (case payload e of MmapPayload m \<Rightarrow> m | _ \<Rightarrow> default_MMapEvent)"

definition sample_event :: "PerfEvent \<Rightarrow> SampleEvent" where
  "sample_event e = (case payload e of SamplePayload s \<Rightarrow> s | _ \<Rightarrow> default_SampleEvent)"

definition comm_event :: "PerfEvent \<Rightarrow> CommEvent" where
  "comm_event e = (case payload e of CommPayload c \<Rightarrow> c | _ \<Rightarrow> default_CommEvent)"

definition fork_event :: "PerfEvent \<Rightarrow> ForkEvent" where
  "fork_event e = (case payload e of ForkPayload f \<Rightarrow> f | _ \<Rightarrow> default_ForkEvent)"

text \<open>
  \<open>dso_info\<close> is a pointer to an entry of \<open>name_to_dso\<close>; the model keeps the key
  of that entry, and \<open>None\<close> for the null pointer.
\<close>

record DSOAndOffset =
  dso_info :: "string option"
  offset :: u64

record BranchEntry =
  be_from :: DSOAndOffset
  be_to :: DSOAndOffset
  be_mispredicted :: bool
  be_predicted :: bool
  be_in_transaction :: bool
  be_aborted_transaction :: bool
  be_cycles :: u32

text \<open>
  \<open>event_ptr\<close> points into the reader's event list; the model keeps the index of
  the event in that list.
\<close>

record ParsedEvent =
  event_ptr :: nat
  command :: "string option"
  num_samples_in_mmap_region :: u32
  dso_and_offset :: DSOAndOffset
  data_dso_and_offset :: DSOAndOffset
  callchain :: "DSOAndOffset list"
  branch_stack :: "BranchEntry list"

record DSOInfo =
  dso_name :: string
  build_id :: string
  dso_maj :: u32
  dso_min :: u32
  dso_ino :: u64
  hit :: bool
  threads :: "u64 set"

record PerfEventStats =
  num_sample_events :: u32
  num_mmap_events :: u32
  num_comm_events :: u32
  num_fork_events :: u32
  num_exit_events :: u32
  num_sample_events_mapped :: u32
  num_data_sample_events :: u32
  num_data_sample_events_mapped :: u32
  did_remap :: bool

text \<open>
  The options. The threshold is a \<open>float\<close> in the source; its type is the parameter
  \<open>'f\<close>, and the single-precision comparison that reads it is a parameter of the
  platform below.
\<close>

record 'f PerfParserOptions =
  do_remap :: bool
  discard_unused_events :: bool
  sample_mapping_percentage_threshold :: 'f
  sort_events_by_time :: bool
  read_missing_buildids :: bool
  deduce_huge_page_mappings :: bool
  combine_mappings :: bool
  allow_unaligned_jit_mappings :: bool

text \<open>
  Everything perf\_parser.cc uses and does not define is a parameter: the class
  \<open>AddressMapper\<close> (address\_mapper.h; \<open>'m\<close> is the mapper, \<open>'i\<close> its list
  iterator), the constants of the headers, the reader, the huge-page and combine
  pre-passes, the file-system probe for build ids, and the single-precision test
  \<open>static_cast<float>(mapped) / total * 100. < threshold\<close>. Operations that mutate the
  mapper return the new one. Every theorem below holds for every platform.
\<close>

record ('m, 'i, 'f) platform =
  new_AddressMapper :: 'm
  set_page_alignment :: "'m \<Rightarrow> u64 \<Rightarrow> 'm"
  MapWithID :: "'m \<Rightarrow> u64 \<Rightarrow> u64 \<Rightarrow> u64 \<Rightarrow> u64 \<Rightarrow> bool \<Rightarrow> bool \<Rightarrow> bool \<times> 'm"
  GetMappedAddressAndListIterator :: "'m \<Rightarrow> u64 \<Rightarrow> (u64 \<times> 'i) option"
  GetMappedIDAndOffset :: "'m \<Rightarrow> u64 \<Rightarrow> 'i \<Rightarrow> u64 \<times> u64"
  kMmapPageAlignment :: u64
  kKernelPid :: u32
  PERF_CONTEXT_MAX :: u64
  PERF_RECORD_MISC_CPUMODE_MASK :: u32
  PERF_RECORD_MISC_KERNEL :: u32
  MaybeSortEventsByTime :: "PerfEvent list \<Rightarrow> PerfEvent list"
  DeduceHugePages :: "PerfEvent list \<Rightarrow> PerfEvent list"
  CombineMappings :: "PerfEvent list \<Rightarrow> PerfEvent list"
  event_types_to_skip_when_serializing :: "perf_event_type set"
  GetFilenamesToBuildIDs :: "string \<rightharpoonup> string"
  FindDsoBuildId :: "DSOInfo \<Rightarrow> string"
  RawDataToHexString :: "string \<Rightarrow> string"
  InjectBuildIDs :: "(string \<times> string) list \<Rightarrow> bool"
  sample_mapping_percentage_below :: "u32 \<Rightarrow> u32 \<Rightarrow> 'f \<Rightarrow> bool"

text \<open>
  The state of a \<open>PerfParser\<close> together with the reader's event list it mutates in
  place. \<open>name_to_dso\<close> is an association list with distinct keys.
\<close>

record 'm PerfParser =
  events :: "PerfEvent list"
  parsed_events :: "ParsedEvent list"
  stats :: PerfEventStats
  process_mappers :: "u32 \<rightharpoonup> 'm"
  name_to_dso :: "(string \<times> DSOInfo) list"
  pidtid_to_comm_map :: "PidTid \<rightharpoonup> string"
  commands :: "string set"

section \<open>Helpers of the anonymous namespace\<close>

definition kSwapperCommandName :: string where
  "kSwapperCommandName = ''swapper''"

definition kSwapperPid :: u32 where
  "kSwapperPid = 0"

definition GetPageAlignedOffset :: "('m, 'i, 'f) platform \<Rightarrow> u64 \<Rightarrow> u64" where
  "GetPageAlignedOffset env addr = addr mod kMmapPageAlignment env"

definition IsNullBranchStackEntry :: "BranchStackEntry \<Rightarrow> bool" where
  "IsNullBranchStackEntry entry = (from_ip entry = 0 \<and> to_ip entry = 0)"

definition mergeTwoU32 :: "u32 \<Rightarrow> u32 \<Rightarrow> u64" where
  "mergeTwoU32 first second = push_bit 32 (ucast first) OR ucast second"

text \<open>\<open>std::vector::resize\<close>: keeps a prefix, pads with value-initialised elements.\<close>

definition resize :: "'a \<Rightarrow> 'a list \<Rightarrow> nat \<Rightarrow> 'a list" where
  "resize d xs n = take n xs @ replicate (n - length xs) d"

definition default_DSOAndOffset :: DSOAndOffset where
  "default_DSOAndOffset = \<lparr>dso_info = None, offset = 0\<rparr>"

definition default_BranchEntry :: BranchEntry where
  "default_BranchEntry =
     \<lparr>be_from = default_DSOAndOffset, be_to = default_DSOAndOffset,
      be_mispredicted = False, be_predicted = False, be_in_transaction = False,
      be_aborted_transaction = False, be_cycles = 0\<rparr>"

definition default_ParsedEvent :: ParsedEvent where
  "default_ParsedEvent =
     \<lparr>event_ptr = 0, command = None, num_samples_in_mmap_region = 0,
      dso_and_offset = default_DSOAndOffset, data_dso_and_offset = default_DSOAndOffset,
      callchain = [], branch_stack = []\<rparr>"

section \<open>Process mappers\<close>

text \<open>
  \<open>GetOrCreateProcessMapper(pid, ppid)\<close>. The result is the mapper the returned
  pointer refers to and the flag; a caller that mutates the mapper stores it back
  under \<open>pid\<close>. Copy construction of a mapper is the value itself.
\<close>

definition GetOrCreateProcessMapper ::
  "('m, 'i, 'f) platform \<Rightarrow> u32 \<Rightarrow> u32 \<Rightarrow> 'm PerfParser \<Rightarrow> ('m \<times> bool) \<times> 'm PerfParser" where
  "GetOrCreateProcessMapper env pid ppid st =
     (case process_mappers st pid of
        Some m \<Rightarrow> ((m, False), st)
      | None \<Rightarrow>
          (let parent_mapper =
                 (case process_mappers st ppid of
                    Some p \<Rightarrow> Some p
                  | None \<Rightarrow> process_mappers st (kKernelPid env));
               mapper =
                 (case parent_mapper of
                    Some p \<Rightarrow> p
                  | None \<Rightarrow> set_page_alignment env (new_AddressMapper env) (kMmapPageAlignment env))
           in ((mapper, True), st\<lparr>process_mappers := (process_mappers st)(pid \<mapsto> mapper)\<rparr>)))"

section \<open>Writing through the pointers\<close>

text \<open>
  \<open>upd_parsed i f\<close> writes to \<open>parsed_events_[i]\<close>, \<open>upd_event p f\<close> to the event
  the pointer \<open>p\<close> refers to. \<open>upd_sample\<close> and \<open>upd_mmap\<close> are
  \<open>mutable_sample_event()\<close> and \<open>mutable_mmap_event()\<close>: they create the payload
  from the default message when the event does not carry it.
\<close>

definition upd_parsed :: "nat \<Rightarrow> (ParsedEvent \<Rightarrow> ParsedEvent) \<Rightarrow> 'm PerfParser \<Rightarrow> 'm PerfParser" where
  "upd_parsed i f st = st\<lparr>parsed_events := (parsed_events st)[i := f (parsed_events st ! i)]\<rparr>"

definition upd_event :: "nat \<Rightarrow> (PerfEvent \<Rightarrow> PerfEvent) \<Rightarrow> 'm PerfParser \<Rightarrow> 'm PerfParser" where
  "upd_event p f st = st\<lparr>events := (events st)[p := f (events st ! p)]\<rparr>"

definition upd_sample :: "(SampleEvent \<Rightarrow> SampleEvent) \<Rightarrow> PerfEvent \<Rightarrow> PerfEvent" where
  "upd_sample f e = e\<lparr>payload := SamplePayload (f (sample_event e))\<rparr>"

definition upd_mmap :: "(MMapEvent \<Rightarrow> MMapEvent) \<Rightarrow> PerfEvent \<Rightarrow> PerfEvent" where
  "upd_mmap f e = e\<lparr>payload := MmapPayload (f (mmap_event e))\<rparr>"

definition upd_stats :: "(PerfEventStats \<Rightarrow> PerfEventStats) \<Rightarrow> 'm PerfParser \<Rightarrow> 'm PerfParser" where
  "upd_stats f st = st\<lparr>stats := f (stats st)\<rparr>"

section \<open>Mapping one address\<close>

text \<open>
  \<open>MapIPAndPidAndGetNameAndOffset(ip, pidtid, new_ip, dso_and_offset)\<close>. The two
  output parameters are passed in with their current contents and returned with their
  final contents; the caller stores \<open>dso_and_offset\<close> where the pointer pointed. The
  result is \<open>None\<close> when a \<open>CHECK\<close> aborts the process (\<open>CHECK_LE(id, size)\<close>, the
  DSO lookup) and when \<open>id\<close> equals the size, which passes the \<open>CHECK_LE\<close> and then
  indexes \<open>parsed_events_\<close> out of bounds, or the event pointer dangles. The
  \<open>DCHECK\<close>s are those of a release build: they check nothing, and an event without
  an MMAP payload reads as the empty file name.
\<close>

definition MapIPAndPidAndGetNameAndOffset ::
  "('m, 'i, 'f) platform \<Rightarrow> 'f PerfParserOptions \<Rightarrow> u64 \<Rightarrow> PidTid \<Rightarrow> u64 \<Rightarrow> DSOAndOffset \<Rightarrow>
   'm PerfParser \<Rightarrow> ((bool \<times> u64 \<times> DSOAndOffset) \<times> 'm PerfParser) option" where
  "MapIPAndPidAndGetNameAndOffset env options ip pidtid new_ip dao st =
     (case GetOrCreateProcessMapper env (fst pidtid) (kKernelPid env) st of
        ((mapper, created), st1) \<Rightarrow>
          (case GetMappedAddressAndListIterator env mapper ip of
             None \<Rightarrow> Some ((False, new_ip, dao), st1)
           | Some (mapped_addr, ip_iter) \<Rightarrow>
               (case GetMappedIDAndOffset env mapper ip ip_iter of
                  (ident, off) \<Rightarrow>
                    if \<not> unat ident < length (parsed_events st1) then None
                    else if \<not> event_ptr (parsed_events st1 ! unat ident) < length (events st1)
                    then None
                    else
                      (let filename =
                             mmap_filename
                               (mmap_event (events st1 ! event_ptr (parsed_events st1 ! unat ident)))
                       in case map_of (name_to_dso st1) filename of
                            None \<Rightarrow> None
                          | Some dso \<Rightarrow>
                              (let dao' = dao\<lparr>offset := off, dso_info := Some filename\<rparr>;
                                   st2 = st1\<lparr>name_to_dso :=
                                           AList.map_entry filename
                                             (\<lambda>d. d\<lparr>hit := True,
                                                     threads := insert (mergeTwoU32 (fst pidtid) (snd pidtid))
                                                                  (threads d)\<rparr>)
                                             (name_to_dso st1)\<rparr>;
                                   st3 = upd_parsed (unat ident)
                                           (\<lambda>p. p\<lparr>num_samples_in_mmap_region :=
                                                     num_samples_in_mmap_region p + 1\<rparr>) st2
                               in if do_remap options then
                                    (if GetPageAlignedOffset env mapped_addr \<noteq> GetPageAlignedOffset env ip
                                     then Some ((False, new_ip, dao'), st3)
                                     else Some ((True, mapped_addr, dao'), st3))
                                  else Some ((True, ip, dao'), st3))))))"

section \<open>Call chains\<close>

text \<open>
  The body of the loop of \<open>MapCallchain\<close> at index \<open>i\<close>. \<open>cc\<close> is the sample's
  call chain, \<open>pcc\<close> is \<open>parsed_event->callchain\<close>, \<open>n\<close> is
  \<open>num_entries_mapped\<close>. The slot \<open>&parsed_event->callchain[num_entries_mapped++]\<close>
  is taken, and the counter incremented, before the address is mapped.
\<close>

definition MapCallchain_body ::
  "('m, 'i, 'f) platform \<Rightarrow> 'f PerfParserOptions \<Rightarrow> u64 \<Rightarrow> PidTid \<Rightarrow> u64 \<Rightarrow> nat \<Rightarrow> u64 list \<Rightarrow>
   DSOAndOffset list \<Rightarrow> nat \<Rightarrow> bool \<Rightarrow> 'm PerfParser \<Rightarrow>
   ((u64 list \<times> DSOAndOffset list \<times> nat \<times> bool) \<times> 'm PerfParser) option" where
  "MapCallchain_body env options ip pidtid original_event_addr i cc pcc n mapping_ok st =
     (let entry = cc ! i in
      if entry \<ge> PERF_CONTEXT_MAX env then Some ((cc, pcc, n, mapping_ok), st)
      else if entry = original_event_addr then Some ((cc[i := ip], pcc, n, mapping_ok), st)
      else
        (case MapIPAndPidAndGetNameAndOffset env options entry pidtid 0 (pcc ! n) st of
           None \<Rightarrow> None
         | Some ((mapped, mapped_addr, dao), st') \<Rightarrow>
             if \<not> mapped then
               Some ((cc[i := entry OR push_bit 63 1], pcc[n := dao], n + 1, False), st')
             else Some ((cc[i := mapped_addr], pcc[n := dao], n + 1, mapping_ok), st')))"

function MapCallchain_loop ::
  "('m, 'i, 'f) platform \<Rightarrow> 'f PerfParserOptions \<Rightarrow> u64 \<Rightarrow> PidTid \<Rightarrow> u64 \<Rightarrow> nat \<Rightarrow> u64 list \<Rightarrow>
   DSOAndOffset list \<Rightarrow> nat \<Rightarrow> bool \<Rightarrow> 'm PerfParser \<Rightarrow>
   ((bool \<times> u64 list \<times> DSOAndOffset list \<times> nat) \<times> 'm PerfParser) option" where
  "MapCallchain_loop env options ip pidtid original_event_addr i cc pcc n mapping_ok st =
     (if i < length cc then
        (case MapCallchain_body env options ip pidtid original_event_addr i cc pcc n mapping_ok st of
           None \<Rightarrow> None
         | Some ((cc', pcc', n', mapping_ok'), st') \<Rightarrow>
             MapCallchain_loop env options ip pidtid original_event_addr (i + 1) cc' pcc' n'
               mapping_ok' st')
      else Some ((mapping_ok, cc, pcc, n), st))"
  by pat_completeness auto

text \<open>
  \<open>MapCallchain(ip, pidtid, original_event_addr, callchain, parsed_event)\<close>. The
  call chain and \<open>parsed_event->callchain\<close> are passed in and returned; the caller
  stores them back. The pointer \<open>callchain\<close> is never null here.
\<close>

definition MapCallchain ::
  "('m, 'i, 'f) platform \<Rightarrow> 'f PerfParserOptions \<Rightarrow> u64 \<Rightarrow> PidTid \<Rightarrow> u64 \<Rightarrow> u64 list \<Rightarrow>
   DSOAndOffset list \<Rightarrow> 'm PerfParser \<Rightarrow>
   ((bool \<times> u64 list \<times> DSOAndOffset list) \<times> 'm PerfParser) option" where
  "MapCallchain env options ip pidtid original_event_addr cc pcc st =
     (if cc = [] then Some ((True, cc, pcc), st)
      else
        (case MapCallchain_loop env options ip pidtid original_event_addr 0 cc
                (resize default_DSOAndOffset pcc (length cc)) 0 True st of
           None \<Rightarrow> None
         | Some ((mapping_ok, cc', pcc', num_entries_mapped), st') \<Rightarrow>
             Some ((mapping_ok, cc', resize default_DSOAndOffset pcc' num_entries_mapped), st')))"

section \<open>Branch stacks\<close>

text \<open>
  The body of the mapping loop of \<open>MapBranchStack\<close> at index \<open>i\<close>: \<open>bs\<close> is the
  sample's branch stack, \<open>pbs\<close> is \<open>parsed_event->branch_stack\<close>. The flag of the
  result is \<open>False\<close> when the body returns \<open>false\<close> from the function; what was
  written before stays written.
\<close>

definition MapBranchStack_body ::
  "('m, 'i, 'f) platform \<Rightarrow> 'f PerfParserOptions \<Rightarrow> PidTid \<Rightarrow> nat \<Rightarrow> BranchStackEntry list \<Rightarrow>
   BranchEntry list \<Rightarrow> 'm PerfParser \<Rightarrow>
   ((bool \<times> BranchStackEntry list \<times> BranchEntry list) \<times> 'm PerfParser) option" where
  "MapBranchStack_body env options pidtid i bs pbs st =
     (case MapIPAndPidAndGetNameAndOffset env options (from_ip (bs ! i)) pidtid 0
             (be_from (pbs ! i)) st of
        None \<Rightarrow> None
      | Some ((ok_from, from_mapped, dao_from), st1) \<Rightarrow>
          (let pbs1 = pbs[i := (pbs ! i)\<lparr>be_from := dao_from\<rparr>] in
           if \<not> ok_from then Some ((False, bs, pbs1), st1)
           else
             (let bs1 = bs[i := (bs ! i)\<lparr>from_ip := from_mapped\<rparr>] in
              case MapIPAndPidAndGetNameAndOffset env options (to_ip (bs1 ! i)) pidtid 0
                     (be_to (pbs1 ! i)) st1 of
                None \<Rightarrow> None
              | Some ((ok_to, to_mapped, dao_to), st2) \<Rightarrow>
                  (let pbs2 = pbs1[i := (pbs1 ! i)\<lparr>be_to := dao_to\<rparr>] in
                   if \<not> ok_to then Some ((False, bs1, pbs2), st2)
                   else
                     (let bs2 = bs1[i := (bs1 ! i)\<lparr>to_ip := to_mapped\<rparr>];
                          pbs3 = pbs2[i := (pbs2 ! i)
                                   \<lparr>be_mispredicted := mispredicted (bs2 ! i),
                                    be_predicted := predicted (bs2 ! i),
                                    be_in_transaction := in_transaction (bs2 ! i),
                                    be_aborted_transaction := abort (bs2 ! i),
                                    be_cycles := cycles (bs2 ! i)\<rparr>]
                      in Some ((True, bs2, pbs3), st2))))))"

function MapBranchStack_loop ::
  "('m, 'i, 'f) platform \<Rightarrow> 'f PerfParserOptions \<Rightarrow> PidTid \<Rightarrow> nat \<Rightarrow> nat \<Rightarrow> BranchStackEntry list \<Rightarrow>
   BranchEntry list \<Rightarrow> 'm PerfParser \<Rightarrow>
   ((bool \<times> BranchStackEntry list \<times> BranchEntry list) \<times> 'm PerfParser) option" where
  "MapBranchStack_loop env options pidtid trimmed_size i bs pbs st =
     (if i < trimmed_size then
        (case MapBranchStack_body env options pidtid i bs pbs st of
           None \<Rightarrow> None
         | Some ((go_on, bs', pbs'), st') \<Rightarrow>
             if \<not> go_on then Some ((False, bs', pbs'), st')
             else MapBranchStack_loop env options pidtid trimmed_size (i + 1) bs' pbs' st')
      else Some ((True, bs, pbs), st))"
  by pat_completeness auto

text \<open>
  \<open>MapBranchStack(pidtid, branch_stack, parsed_event)\<close>. \<open>trimmed_size\<close> counts the
  entries before the first null entry; a non-null entry behind it makes the function
  return \<open>false\<close> before anything is written.
\<close>

definition MapBranchStack ::
  "('m, 'i, 'f) platform \<Rightarrow> 'f PerfParserOptions \<Rightarrow> PidTid \<Rightarrow> BranchStackEntry list \<Rightarrow>
   BranchEntry list \<Rightarrow> 'm PerfParser \<Rightarrow>
   ((bool \<times> BranchStackEntry list \<times> BranchEntry list) \<times> 'm PerfParser) option" where
  "MapBranchStack env options pidtid bs pbs st =
     (let trimmed_size = length (takeWhile (\<lambda>entry. \<not> IsNullBranchStackEntry entry) bs) in
      if list_ex (\<lambda>entry. \<not> IsNullBranchStackEntry entry) (drop trimmed_size bs)
      then Some ((False, bs, pbs), st)
      else MapBranchStack_loop env options pidtid trimmed_size 0 bs
             (resize default_BranchEntry pbs trimmed_size) st)"

section \<open>Samples\<close>

text \<open>
  The blocks of \<open>MapSampleEvent\<close> behind the mapping of the sample's own address.
  \<open>cur\<close> is the index of \<open>parsed_event\<close> in \<open>parsed_events_\<close>, \<open>ptr\<close> its
  event pointer. Each block returns, with the state, whether its mapping call
  succeeded (\<open>True\<close> when the block makes no call).
\<close>

definition MapSampleEvent_addr ::
  "('m, 'i, 'f) platform \<Rightarrow> 'f PerfParserOptions \<Rightarrow> nat \<Rightarrow> nat \<Rightarrow> PidTid \<Rightarrow> 'm PerfParser \<Rightarrow>
   (bool \<times> 'm PerfParser) option" where
  "MapSampleEvent_addr env options cur ptr pidtid st =
     (case sample_addr (sample_event (events st ! ptr)) of
        None \<Rightarrow> Some (True, st)
      | Some addr \<Rightarrow>
          if addr = 0 then Some (True, st)
          else
            (let st1 = upd_stats (\<lambda>s. s\<lparr>num_data_sample_events := num_data_sample_events s + 1\<rparr>) st
             in case MapIPAndPidAndGetNameAndOffset env options addr pidtid 0
                       (data_dso_and_offset (parsed_events st1 ! cur)) st1 of
                  None \<Rightarrow> None
                | Some ((ok, remapped_addr, dao), st2) \<Rightarrow>
                    (let st3 = upd_parsed cur (\<lambda>p. p\<lparr>data_dso_and_offset := dao\<rparr>) st2 in
                     if ok then
                       Some (True,
                             upd_event ptr (upd_sample (\<lambda>s. s\<lparr>sample_addr := Some remapped_addr\<rparr>))
                               (upd_stats (\<lambda>s. s\<lparr>num_data_sample_events_mapped :=
                                                    num_data_sample_events_mapped s + 1\<rparr>) st3))
                     else Some (False, st3))))"

definition MapSampleEvent_callchain ::
  "('m, 'i, 'f) platform \<Rightarrow> 'f PerfParserOptions \<Rightarrow> nat \<Rightarrow> nat \<Rightarrow> PidTid \<Rightarrow> u64 \<Rightarrow> 'm PerfParser \<Rightarrow>
   (bool \<times> 'm PerfParser) option" where
  "MapSampleEvent_callchain env options cur ptr pidtid unmapped_event_ip st =
     (let sample_info = sample_event (events st ! ptr) in
      if sample_callchain sample_info = [] then Some (True, st)
      else
        (case MapCallchain env options (sample_ip sample_info) pidtid unmapped_event_ip
                (sample_callchain sample_info) (callchain (parsed_events st ! cur)) st of
           None \<Rightarrow> None
         | Some ((ok, cc, pcc), st1) \<Rightarrow>
             Some (ok, upd_event ptr (upd_sample (\<lambda>s. s\<lparr>sample_callchain := cc\<rparr>))
                         (upd_parsed cur (\<lambda>p. p\<lparr>callchain := pcc\<rparr>) st1))))"

definition MapSampleEvent_branch_stack ::
  "('m, 'i, 'f) platform \<Rightarrow> 'f PerfParserOptions \<Rightarrow> nat \<Rightarrow> nat \<Rightarrow> PidTid \<Rightarrow> 'm PerfParser \<Rightarrow>
   (bool \<times> 'm PerfParser) option" where
  "MapSampleEvent_branch_stack env options cur ptr pidtid st =
     (let sample_info = sample_event (events st ! ptr) in
      if sample_branch_stack sample_info = [] then Some (True, st)
      else
        (case MapBranchStack env options pidtid (sample_branch_stack sample_info)
                (branch_stack (parsed_events st ! cur)) st of
           None \<Rightarrow> None
         | Some ((ok, bs, pbs), st1) \<Rightarrow>
             Some (ok, upd_event ptr (upd_sample (\<lambda>s. s\<lparr>sample_branch_stack := bs\<rparr>))
                         (upd_parsed cur (\<lambda>p. p\<lparr>branch_stack := pbs\<rparr>) st1))))"

definition MapSampleEvent_command :: "nat \<Rightarrow> PidTid \<Rightarrow> 'm PerfParser \<Rightarrow> 'm PerfParser" where
  "MapSampleEvent_command cur pidtid st =
     (case pidtid_to_comm_map st pidtid of
        Some c \<Rightarrow> upd_parsed cur (\<lambda>p. p\<lparr>command := Some c\<rparr>) st
      | None \<Rightarrow> st)"

definition MapSampleEvent_ip ::
  "('m, 'i, 'f) platform \<Rightarrow> 'f PerfParserOptions \<Rightarrow> nat \<Rightarrow> nat \<Rightarrow> PidTid \<Rightarrow> 'm PerfParser \<Rightarrow>
   (bool \<times> 'm PerfParser) option" where
  "MapSampleEvent_ip env options cur ptr pidtid st =
     (case MapIPAndPidAndGetNameAndOffset env options (sample_ip (sample_event (events st ! ptr)))
             pidtid 0 (dso_and_offset (parsed_events st ! cur)) st of
        None \<Rightarrow> None
      | Some ((ok, remapped_event_ip, dao), st1) \<Rightarrow>
          (let st2 = upd_parsed cur (\<lambda>p. p\<lparr>dso_and_offset := dao\<rparr>) st1 in
           if \<not> ok then Some (False, st2)
           else Some (True, upd_event ptr (upd_sample (\<lambda>s. s\<lparr>sample_ip := remapped_event_ip\<rparr>)) st2)))"

text \<open>
  The body of \<open>MapSampleEvent\<close> for an event that has a sample payload. Beside the
  state it returns the results of the four mapping calls, in the order ip, addr, call
  chain, branch stack.
\<close>

definition MapSampleEvent_main ::
  "('m, 'i, 'f) platform \<Rightarrow> 'f PerfParserOptions \<Rightarrow> nat \<Rightarrow> nat \<Rightarrow> 'm PerfParser \<Rightarrow>
   ((bool \<times> bool \<times> bool \<times> bool) \<times> 'm PerfParser) option" where
  "MapSampleEvent_main env options cur ptr st =
     (let sample_info = sample_event (events st ! ptr);
          pidtid = (sample_pid sample_info, sample_tid sample_info);
          unmapped_event_ip = sample_ip sample_info
      in case MapSampleEvent_ip env options cur ptr pidtid (MapSampleEvent_command cur pidtid st) of
           None \<Rightarrow> None
         | Some (ok_ip, st3) \<Rightarrow>
             (case MapSampleEvent_addr env options cur ptr pidtid st3 of
                None \<Rightarrow> None
              | Some (ok_addr, st4) \<Rightarrow>
                  (case MapSampleEvent_callchain env options cur ptr pidtid unmapped_event_ip st4 of
                     None \<Rightarrow> None
                   | Some (ok_cc, st5) \<Rightarrow>
                       (case MapSampleEvent_branch_stack env options cur ptr pidtid st5 of
                          None \<Rightarrow> None
                        | Some (ok_bs, st6) \<Rightarrow>
                            Some ((ok_ip, ok_addr, ok_cc, ok_bs),
                                  (if ok_ip \<and> ok_cc \<and> ok_bs then
                                     upd_stats (\<lambda>s. s\<lparr>num_sample_events_mapped :=
                                                        num_sample_events_mapped s + 1\<rparr>) st6
                                   else st6))))))"

text \<open>
  \<open>MapSampleEvent(parsed_event)\<close>. It returns nothing: a sample that does not map
  is only left out of \<open>num_sample_events_mapped\<close>.
\<close>

definition MapSampleEvent ::
  "('m, 'i, 'f) platform \<Rightarrow> 'f PerfParserOptions \<Rightarrow> nat \<Rightarrow> 'm PerfParser \<Rightarrow> 'm PerfParser option" where
  "MapSampleEvent env options cur st =
     (let ptr = event_ptr (parsed_events st ! cur) in
      if \<not> has_sample_event (events st ! ptr) then Some st
      else map_option snd (MapSampleEvent_main env options cur ptr st))"

section \<open>MMAP, COMM and FORK events\<close>

fun contains_substring :: "string \<Rightarrow> string \<Rightarrow> bool" where
  "contains_substring sub [] = (sub = [])"
| "contains_substring sub (c # cs) = (prefix sub (c # cs) \<or> contains_substring sub cs)"

text \<open>
  \<open>MapMmapEvent(event, id, is_kernel)\<close>; \<open>ptr\<close> is the event that holds the
  \<open>mmap_event\<close> the first argument points to. The mapper that \<open>MapWithID\<close> has
  mutated is the one stored under the event's pid.
\<close>

definition MapMmapEvent ::
  "('m, 'i, 'f) platform \<Rightarrow> 'f PerfParserOptions \<Rightarrow> nat \<Rightarrow> u64 \<Rightarrow> bool \<Rightarrow> 'm PerfParser \<Rightarrow>
   bool \<times> 'm PerfParser" where
  "MapMmapEvent env options ptr ident is_kernel st =
     (case GetOrCreateProcessMapper env (mmap_pid (mmap_event (events st ! ptr))) (kKernelPid env) st of
        ((mapper, created), st1) \<Rightarrow>
          (let event = mmap_event (events st1 ! ptr);
               start0 = mmap_start event;
               len0 = mmap_len event;
               pgoff0 = mmap_pgoff event;
               inside = (is_kernel \<and> pgoff0 > start0 \<and> pgoff0 < start0 + len0);
               len = (if inside then len0 + start0 - pgoff0 else len0);
               start = (if inside then pgoff0 else start0);
               pgoff = (if is_kernel then 0 else pgoff0);
               is_jit_event = (allow_unaligned_jit_mappings options \<and>
                               contains_substring ''jitted-'' (mmap_filename event))
           in case MapWithID env mapper start len ident pgoff True is_jit_event of
                (ok, mapper') \<Rightarrow>
                  (let st2 = st1\<lparr>process_mappers := (process_mappers st1)(mmap_pid event \<mapsto> mapper')\<rparr> in
                   if \<not> ok then (False, st2)
                   else if do_remap options then
                     (case GetMappedAddressAndListIterator env mapper' start of
                        None \<Rightarrow> (False, st2)
                      | Some (mapped_addr, start_iter) \<Rightarrow>
                          if GetPageAlignedOffset env mapped_addr \<noteq> GetPageAlignedOffset env start
                          then (False, st2)
                          else (True, upd_event ptr
                                        (upd_mmap (\<lambda>m. m\<lparr>mmap_start := mapped_addr, mmap_len := len,
                                                         mmap_pgoff := pgoff\<rparr>)) st2))
                   else (True, st2))))"

definition MapCommEvent :: "('m, 'i, 'f) platform \<Rightarrow> CommEvent \<Rightarrow> 'm PerfParser \<Rightarrow> bool \<times> 'm PerfParser" where
  "MapCommEvent env event st =
     (True, snd (GetOrCreateProcessMapper env (comm_pid event) (kKernelPid env) st))"

definition MapForkEvent :: "('m, 'i, 'f) platform \<Rightarrow> ForkEvent \<Rightarrow> 'm PerfParser \<Rightarrow> bool \<times> 'm PerfParser" where
  "MapForkEvent env event st =
     (let parent = (fork_ppid event, fork_ptid event);
          child = (fork_pid event, fork_tid event);
          st1 = (if parent \<noteq> child then
                   (case pidtid_to_comm_map st parent of
                      Some c \<Rightarrow> st\<lparr>pidtid_to_comm_map := (pidtid_to_comm_map st)(child \<mapsto> c)\<rparr>
                    | None \<Rightarrow> st)
                 else st);
          pid = fork_pid event
      in if fork_ppid event = pid then (True, st1)
         else (True, snd (GetOrCreateProcessMapper env pid (fork_ppid event) st1)))"

section \<open>The event loop\<close>

definition ProcessUserEvents :: "PerfEvent \<Rightarrow> bool" where
  "ProcessUserEvents event = True"

definition new_DSOInfo :: "perf_event_type \<Rightarrow> MMapEvent \<Rightarrow> DSOInfo" where
  "new_DSOInfo t m =
     \<lparr>dso_name = mmap_filename m, build_id = [],
      dso_maj = (if t = PERF_RECORD_MMAP2 then mmap_maj m else 0),
      dso_min = (if t = PERF_RECORD_MMAP2 then mmap_min m else 0),
      dso_ino = (if t = PERF_RECORD_MMAP2 then mmap_ino m else 0),
      hit = False, threads = {}\<rparr>"

text \<open>\<open>std::map::emplace\<close>: an existing key keeps its value.\<close>

definition emplace :: "'k \<Rightarrow> 'v \<Rightarrow> ('k \<times> 'v) list \<Rightarrow> ('k \<times> 'v) list" where
  "emplace k v xs = (case map_of xs k of None \<Rightarrow> xs @ [(k, v)] | Some old \<Rightarrow> xs)"

text \<open>
  The case \<open>PERF_RECORD_MMAP\<close>/\<open>PERF_RECORD_MMAP2\<close> of the switch. A \<open>false\<close> from
  \<open>MapMmapEvent\<close> fails the \<open>CHECK\<close>: no result.
\<close>

definition ProcessMmapEvent ::
  "('m, 'i, 'f) platform \<Rightarrow> 'f PerfParserOptions \<Rightarrow> nat \<Rightarrow> nat \<Rightarrow> bool \<Rightarrow> 'm PerfParser \<Rightarrow>
   (bool \<times> bool \<times> 'm PerfParser) option" where
  "ProcessMmapEvent env options i ptr first_kernel_mmap st =
     (let st1 = upd_stats (\<lambda>s. s\<lparr>num_mmap_events := num_mmap_events s + 1\<rparr>) st;
          is_kernel = (first_kernel_mmap \<and>
                       (header_misc (events st1 ! ptr) AND PERF_RECORD_MISC_CPUMODE_MASK env) =
                         PERF_RECORD_MISC_KERNEL env);
          st2 = upd_event ptr (upd_mmap (\<lambda>m. m)) st1
      in case MapMmapEvent env options ptr (of_nat i) is_kernel st2 of
           (ok, st3) \<Rightarrow>
             if \<not> ok then None
             else
               (let st4 = upd_parsed i (\<lambda>p. p\<lparr>num_samples_in_mmap_region := 0\<rparr>) st3;
                    dso = new_DSOInfo (header_type (events st4 ! ptr)) (mmap_event (events st4 ! ptr));
                    st5 = st4\<lparr>name_to_dso := emplace (dso_name dso) dso (name_to_dso st4)\<rparr>
                in Some (True, (if is_kernel then False else first_kernel_mmap), st5)))"

text \<open>
  One iteration of the loop of \<open>ProcessEvents\<close> at index \<open>i\<close>. The result is
  \<open>None\<close> when the process aborts, \<open>Some (False, _)\<close> when the function returns
  \<open>false\<close> from inside the loop, and \<open>Some (True, first_kernel_mmap, st)\<close> when the
  loop goes on.
\<close>

definition ProcessEvent ::
  "('m, 'i, 'f) platform \<Rightarrow> 'f PerfParserOptions \<Rightarrow> nat \<Rightarrow> bool \<Rightarrow> 'm PerfParser \<Rightarrow>
   (bool \<times> bool \<times> 'm PerfParser) option" where
  "ProcessEvent env options i first_kernel_mmap st =
     (let ptr = event_ptr (parsed_events st ! i) in
      if \<not> ptr < length (events st) then None
      else
        (let event = events st ! ptr; t = header_type event in
         if is_user_type t then
           (if \<not> ProcessUserEvents event then Some (False, first_kernel_mmap, st)
            else Some (True, first_kernel_mmap, st))
         else if t = PERF_RECORD_SAMPLE then
           (case MapSampleEvent env options i
                   (upd_stats (\<lambda>s. s\<lparr>num_sample_events := num_sample_events s + 1\<rparr>) st) of
              None \<Rightarrow> None
            | Some st' \<Rightarrow> Some (True, first_kernel_mmap, st'))
         else if t = PERF_RECORD_MMAP \<or> t = PERF_RECORD_MMAP2 then
           ProcessMmapEvent env options i ptr first_kernel_mmap st
         else if t = PERF_RECORD_FORK then
           (case MapForkEvent env (fork_event event)
                   (upd_stats (\<lambda>s. s\<lparr>num_fork_events := num_fork_events s + 1\<rparr>) st) of
              (ok, st') \<Rightarrow> if \<not> ok then None else Some (True, first_kernel_mmap, st'))
         else if t = PERF_RECORD_EXIT then
           Some (True, first_kernel_mmap,
                 upd_stats (\<lambda>s. s\<lparr>num_exit_events := num_exit_events s + 1\<rparr>) st)
         else if t = PERF_RECORD_COMM then
           (case MapCommEvent env (comm_event event)
                   (upd_stats (\<lambda>s. s\<lparr>num_comm_events := num_comm_events s + 1\<rparr>) st) of
              (ok, st') \<Rightarrow>
                if \<not> ok then None
                else Some (True, first_kernel_mmap,
                           st'\<lparr>commands := insert (comm_comm (comm_event event)) (commands st'),
                               pidtid_to_comm_map :=
                                 (pidtid_to_comm_map st')
                                   ((comm_pid (comm_event event), comm_tid (comm_event event)) \<mapsto>
                                      comm_comm (comm_event event))\<rparr>))
         else if t \<in> {PERF_RECORD_LOST, PERF_RECORD_THROTTLE, PERF_RECORD_UNTHROTTLE,
                       PERF_RECORD_AUX, PERF_RECORD_ITRACE_START, PERF_RECORD_LOST_SAMPLES,
                       PERF_RECORD_SWITCH, PERF_RECORD_SWITCH_CPU_WIDE, PERF_RECORD_NAMESPACES,
                       PERF_RECORD_CGROUP} then
           Some (True, first_kernel_mmap, st)
         else Some (False, first_kernel_mmap, st)))"

section \<open>ProcessEvents and ParseRawEvents\<close>

text \<open>
  The loop \<open>for (size_t i = 0; i < parsed_events_.size(); ++i)\<close>. The first component
  of the result is \<open>False\<close> when the function has returned \<open>false\<close> from inside the
  loop.
\<close>

function ProcessEvents_loop ::
  "('m, 'i, 'f) platform \<Rightarrow> 'f PerfParserOptions \<Rightarrow> nat \<Rightarrow> bool \<Rightarrow> 'm PerfParser \<Rightarrow>
   (bool \<times> 'm PerfParser) option" where
  "ProcessEvents_loop env options i first_kernel_mmap st =
     (if i < length (parsed_events st) then
        (case ProcessEvent env options i first_kernel_mmap st of
           None \<Rightarrow> None
         | Some (go_on, first_kernel_mmap', st') \<Rightarrow>
             if \<not> go_on then Some (False, st')
             else ProcessEvents_loop env options (i + 1) first_kernel_mmap' st')
      else Some (True, st))"
  by pat_completeness auto

text \<open>
  \<open>FillInDsoBuildIds\<close>. \<open>new_buildids\<close> is kept as the list of the assignments
  \<open>new_buildids[name] = build_id\<close> in the order the loop makes them.
\<close>

definition FillInDsoBuildId :: "('m, 'i, 'f) platform \<Rightarrow> 'f PerfParserOptions \<Rightarrow> DSOInfo \<Rightarrow> DSOInfo" where
  "FillInDsoBuildId env options dso =
     (let dso1 = (case GetFilenamesToBuildIDs env (dso_name dso) of
                    Some b \<Rightarrow> dso\<lparr>build_id := b\<rparr>
                  | None \<Rightarrow> dso)
      in if read_missing_buildids options \<and> hit dso1 \<and> FindDsoBuildId env dso1 \<noteq> []
         then dso1\<lparr>build_id := RawDataToHexString env (FindDsoBuildId env dso1)\<rparr>
         else dso1)"

definition found_new_buildid :: "('m, 'i, 'f) platform \<Rightarrow> 'f PerfParserOptions \<Rightarrow> DSOInfo \<Rightarrow> bool" where
  "found_new_buildid env options dso =
     (let dso1 = (case GetFilenamesToBuildIDs env (dso_name dso) of
                    Some b \<Rightarrow> dso\<lparr>build_id := b\<rparr>
                  | None \<Rightarrow> dso)
      in read_missing_buildids options \<and> hit dso1 \<and> FindDsoBuildId env dso1 \<noteq> [])"

definition FillInDsoBuildIds ::
  "('m, 'i, 'f) platform \<Rightarrow> 'f PerfParserOptions \<Rightarrow> 'm PerfParser \<Rightarrow> bool \<times> 'm PerfParser" where
  "FillInDsoBuildIds env options st =
     (let new_buildids =
            map (\<lambda>(k, dso). (dso_name dso, build_id (FillInDsoBuildId env options dso)))
              (filter (\<lambda>(k, dso). found_new_buildid env options dso) (name_to_dso st));
          st' = st\<lparr>name_to_dso :=
                     map (\<lambda>(k, dso). (k, FillInDsoBuildId env options dso)) (name_to_dso st)\<rparr>
      in if new_buildids = [] then (True, st') else (InjectBuildIDs env new_buildids, st'))"

definition zero_stats :: PerfEventStats where
  "zero_stats =
     \<lparr>num_sample_events = 0, num_mmap_events = 0, num_comm_events = 0, num_fork_events = 0,
      num_exit_events = 0, num_sample_events_mapped = 0, num_data_sample_events = 0,
      num_data_sample_events_mapped = 0, did_remap = False\<rparr>"

text \<open>
  \<open>ProcessEvents\<close>. With no sample event the function returns \<open>false\<close> on both
  branches of the test on \<open>event_types_to_skip_when_serializing\<close>; the branches differ
  in the message they log.
\<close>

definition ProcessEvents ::
  "('m, 'i, 'f) platform \<Rightarrow> 'f PerfParserOptions \<Rightarrow> 'm PerfParser \<Rightarrow> (bool \<times> 'm PerfParser) option" where
  "ProcessEvents env options st =
     (let st1 = st\<lparr>stats := zero_stats,
                    commands := insert kSwapperCommandName (commands st),
                    pidtid_to_comm_map :=
                      (pidtid_to_comm_map st)((kSwapperPid, kSwapperPid) \<mapsto> kSwapperCommandName)\<rparr>
      in case ProcessEvents_loop env options 0 True st1 of
           None \<Rightarrow> None
         | Some (finished, st2) \<Rightarrow>
             if \<not> finished then Some (False, st2)
             else
               (case FillInDsoBuildIds env options st2 of
                  (filled, st3) \<Rightarrow>
                    if \<not> filled then Some (False, st3)
                    else if num_sample_events (stats st3) = 0 then
                      (if PERF_RECORD_SAMPLE \<in> event_types_to_skip_when_serializing env
                       then Some (False, st3)
                       else Some (False, st3))
                    else if sample_mapping_percentage_below env
                              (num_sample_events_mapped (stats st3)) (num_sample_events (stats st3))
                              (sample_mapping_percentage_threshold options)
                    then Some (False, st3)
                    else Some (True, upd_stats (\<lambda>s. s\<lparr>did_remap := do_remap options\<rparr>) st3)))"

text \<open>
  \<open>UpdatePerfEventsFromParsedEvents\<close>: the reader's list becomes the list of the
  events the parsed events point to, in their order, and each pointer follows its event.
\<close>

definition UpdatePerfEventsFromParsedEvents :: "'m PerfParser \<Rightarrow> 'm PerfParser" where
  "UpdatePerfEventsFromParsedEvents st =
     st\<lparr>events := map (\<lambda>pe. events st ! event_ptr pe) (parsed_events st),
        parsed_events := map (\<lambda>(k, pe). pe\<lparr>event_ptr := k\<rparr>) (enumerate 0 (parsed_events st))\<rparr>"

text \<open>
  \<open>ParseRawEvents\<close>, the top-level entry, in three parts: what it does before
  \<open>ProcessEvents\<close> (the reader's sort, the reset of the process mappers, the two
  pre-passes, and the parsed events built from the records that are not
  \<open>PERF_RECORD_FINISHED_ROUND\<close>), the removal of the MMAP events that no sample hit,
  and the function itself. The value of \<open>ProcessEvents()\<close> is discarded: every path
  that returns, returns \<open>true\<close>.
\<close>

definition ParseRawEvents_prepare ::
  "('m, 'i, 'f) platform \<Rightarrow> 'f PerfParserOptions \<Rightarrow> 'm PerfParser \<Rightarrow> 'm PerfParser" where
  "ParseRawEvents_prepare env options st =
     (let st1 = (if sort_events_by_time options
                 then st\<lparr>events := MaybeSortEventsByTime env (events st)\<rparr> else st);
          st2 = st1\<lparr>process_mappers := Map.empty\<rparr>;
          st3 = (if deduce_huge_page_mappings options
                 then st2\<lparr>events := DeduceHugePages env (events st2)\<rparr> else st2);
          st4 = (if combine_mappings options
                 then st3\<lparr>events := CombineMappings env (events st3)\<rparr> else st3)
      in st4\<lparr>parsed_events :=
               map (\<lambda>i. default_ParsedEvent\<lparr>event_ptr := i\<rparr>)
                 (filter (\<lambda>i. header_type (events st4 ! i) \<noteq> PERF_RECORD_FINISHED_ROUND)
                    [0..<length (events st4)])\<rparr>)"

definition ParseRawEvents_discard :: "'m PerfParser \<Rightarrow> 'm PerfParser" where
  "ParseRawEvents_discard st =
     UpdatePerfEventsFromParsedEvents
       (st\<lparr>parsed_events :=
             filter (\<lambda>event. \<not> (has_mmap_event (events st ! event_ptr event) \<and>
                                 num_samples_in_mmap_region event = 0))
               (parsed_events st)\<rparr>)"

definition ParseRawEvents ::
  "('m, 'i, 'f) platform \<Rightarrow> 'f PerfParserOptions \<Rightarrow> 'm PerfParser \<Rightarrow> (bool \<times> 'm PerfParser) option" where
  "ParseRawEvents env options st =
     (case ProcessEvents env options (ParseRawEvents_prepare env options st) of
        None \<Rightarrow> None
      | Some (processed, st') \<Rightarrow>
          if \<not> discard_unused_events options then Some (True, st')
          else Some (True, ParseRawEvents_discard st'))"

section \<open>A platform for running the parser on examples\<close>

text \<open>
  Modelled from the spec: the class \<open>AddressMapper\<close> (address\_mapper.h and
  address\_mapper.cc are not under src/). A mapper is an ordered sequence of
  non-overlapping intervals, each with its start, its length (the limit is start +
  length), the page offset of its start, the id of the event that created it and its
  JIT flag, and a page-alignment constant. The synthetic start of an interval is the
  sum of the lengths of the intervals before it. The theorems below do not depend on
  this model; the examples that instantiate them do.
\<close>

record MappedRange =
  range_start :: u64
  range_length :: u64
  range_page_offset :: u64
  range_event_id :: u64
  range_is_jit :: bool

record AddressMapper =
  mappings :: "MappedRange list"
  page_alignment :: u64

text \<open>
  Modelled from the spec: a new \<open>AddressMapper\<close> has no interval; its page alignment
  is set by \<open>set_page_alignment\<close>.
\<close>

definition new_mapper :: AddressMapper where
  "new_mapper = \<lparr>mappings = [], page_alignment = 0\<rparr>"

definition mapper_set_page_alignment :: "AddressMapper \<Rightarrow> u64 \<Rightarrow> AddressMapper" where
  "mapper_set_page_alignment m a = m\<lparr>page_alignment := a\<rparr>"

text \<open>
  Modelled from the spec: an interval holds the addresses from its start up to, and
  without, its limit.
\<close>

definition range_contains :: "MappedRange \<Rightarrow> u64 \<Rightarrow> bool" where
  "range_contains r a = (range_start r \<le> a \<and> a - range_start r < range_length r)"

text \<open>
  Modelled from the spec: \<open>get_mapped_address_and_iterator(addr)\<close> finds the interval
  containing \<open>addr\<close> and returns its synthetic start plus \<open>addr - start\<close>; the
  iterator is the position of the interval.
\<close>

fun find_range :: "MappedRange list \<Rightarrow> u64 \<Rightarrow> nat \<Rightarrow> u64 \<Rightarrow> (u64 \<times> nat) option" where
  "find_range [] a k synthetic = None"
| "find_range (r # rs) a k synthetic =
     (if range_contains r a then Some (synthetic + (a - range_start r), k)
      else find_range rs a (k + 1) (synthetic + range_length r))"

definition mapper_GetMappedAddressAndListIterator :: "AddressMapper \<Rightarrow> u64 \<Rightarrow> (u64 \<times> nat) option" where
  "mapper_GetMappedAddressAndListIterator m a = find_range (mappings m) a 0 0"

text \<open>
  Modelled from the spec: \<open>get_mapped_id_and_offset(addr, iter)\<close> returns the event id
  and \<open>iter.page_offset + (addr - iter.start)\<close>.
\<close>

definition mapper_GetMappedIDAndOffset :: "AddressMapper \<Rightarrow> u64 \<Rightarrow> nat \<Rightarrow> u64 \<times> u64" where
  "mapper_GetMappedIDAndOffset m a k =
     (let r = mappings m ! k in (range_event_id r, range_page_offset r + (a - range_start r)))"

text \<open>
  Modelled from the spec: what \<open>map_with_id\<close> leaves of an existing interval when the
  interval from \<open>s\<close> of length \<open>l\<close> is inserted. A covered interval is removed, an
  interval covered on one side is truncated (its page offset moves with its start), an
  interval that straddles the new one is split in two.
\<close>

definition make_room :: "u64 \<Rightarrow> u64 \<Rightarrow> MappedRange \<Rightarrow> MappedRange list" where
  "make_room s l e =
     (let ns = unat s; nl = unat s + unat l;
          es = unat (range_start e); el = unat (range_start e) + unat (range_length e);
          right = e\<lparr>range_start := s + l,
                     range_length := range_start e + range_length e - (s + l),
                     range_page_offset := range_page_offset e + (s + l - range_start e)\<rparr>;
          left = e\<lparr>range_length := s - range_start e\<rparr>
      in if el \<le> ns \<or> nl \<le> es then [e]
         else if ns \<le> es \<and> el \<le> nl then []
         else if es < ns \<and> nl < el then [left, right]
         else if ns \<le> es then [right]
         else [left])"

text \<open>
  Modelled from the spec: aligned relative to the page alignment (an alignment of 0
  asks for nothing).
\<close>

definition page_aligned :: "u64 \<Rightarrow> u64 \<Rightarrow> bool" where
  "page_aligned alignment x = (alignment = 0 \<or> x mod alignment = 0)"

text \<open>
  Modelled from the spec: \<open>map_with_id(start, length, event_id, page_offset,
  remove_old_mappings, is_jit)\<close>. It fails on a zero length and on an interval that is
  not aligned when \<open>is_jit\<close> is false; an interval inside an existing one is a no-op
  when \<open>remove_old_mappings\<close> is false; otherwise room is made and the interval is
  inserted in the order of the starts.
\<close>

definition mapper_MapWithID ::
  "AddressMapper \<Rightarrow> u64 \<Rightarrow> u64 \<Rightarrow> u64 \<Rightarrow> u64 \<Rightarrow> bool \<Rightarrow> bool \<Rightarrow> bool \<times> AddressMapper" where
  "mapper_MapWithID m s l ident pgoff remove_old_mappings is_jit =
     (if l = 0 then (False, m)
      else if \<not> is_jit \<and> \<not> (page_aligned (page_alignment m) s \<and> page_aligned (page_alignment m) l)
      then (False, m)
      else if \<not> remove_old_mappings \<and>
              list_ex (\<lambda>e. unat (range_start e) \<le> unat s \<and>
                           unat s + unat l \<le> unat (range_start e) + unat (range_length e))
                (mappings m)
      then (True, m)
      else (True,
            m\<lparr>mappings :=
                 insort_key range_start
                   \<lparr>range_start = s, range_length = l, range_page_offset = pgoff,
                    range_event_id = ident, range_is_jit = is_jit\<rparr>
                   (concat (map (make_room s l) (mappings m)))\<rparr>))"

text \<open>
  The platform of the examples: the mapper above, the reader's passes as the identity,
  no build ids on record or on disk, the set of skipped event types as a parameter, and
  for the constants of the headers the values of Linux on x86-64 (a page of 4096 bytes,
  \<open>PERF_CONTEXT_MAX = (u64)-4095\<close>, cpu-mode mask 7, kernel mode 1, the kernel pid
  \<open>(u32)-1\<close>). The threshold of the examples is a natural number of percent and the
  comparison is the exact one, \<open>100 * mapped < threshold * total\<close>; no example rests
  on its value.
\<close>

definition example_platform :: "perf_event_type set \<Rightarrow> (AddressMapper, nat, nat) platform" where
  "example_platform skipped =
     \<lparr>new_AddressMapper = new_mapper,
      set_page_alignment = mapper_set_page_alignment,
      MapWithID = mapper_MapWithID,
      GetMappedAddressAndListIterator = mapper_GetMappedAddressAndListIterator,
      GetMappedIDAndOffset = mapper_GetMappedIDAndOffset,
      kMmapPageAlignment = 4096,
      kKernelPid = - 1,
      PERF_CONTEXT_MAX = - 4095,
      PERF_RECORD_MISC_CPUMODE_MASK = 7,
      PERF_RECORD_MISC_KERNEL = 1,
      MaybeSortEventsByTime = (\<lambda>es. es),
      DeduceHugePages = (\<lambda>es. es),
      CombineMappings = (\<lambda>es. es),
      event_types_to_skip_when_serializing = skipped,
      GetFilenamesToBuildIDs = Map.empty,
      FindDsoBuildId = (\<lambda>dso. []),
      RawDataToHexString = (\<lambda>raw. raw),
      InjectBuildIDs = (\<lambda>ids. True),
      sample_mapping_percentage_below = (\<lambda>mapped total threshold.
         100 * unat mapped < threshold * unat total)\<rparr>"

definition example_options :: "bool \<Rightarrow> nat \<Rightarrow> nat PerfParserOptions" where
  "example_options remap threshold =
     \<lparr>do_remap = remap, discard_unused_events = False,
      sample_mapping_percentage_threshold = threshold, sort_events_by_time = False,
      read_missing_buildids = False, deduce_huge_page_mappings = False,
      combine_mappings = False, allow_unaligned_jit_mappings = False\<rparr>"

text \<open>A parser that has not parsed anything, on the reader's events \<open>es\<close>.\<close>

definition new_PerfParser :: "PerfEvent list \<Rightarrow> AddressMapper PerfParser" where
  "new_PerfParser es =
     \<lparr>events = es, parsed_events = [], stats = zero_stats, process_mappers = Map.empty,
      name_to_dso = [], pidtid_to_comm_map = Map.empty, commands = {}\<rparr>"

definition mmap_record :: "perf_event_type \<Rightarrow> u32 \<Rightarrow> u32 \<Rightarrow> u64 \<Rightarrow> u64 \<Rightarrow> u64 \<Rightarrow> string \<Rightarrow> PerfEvent" where
  "mmap_record t misc pid s l pgoff name =
     \<lparr>header_type = t, header_misc = misc,
      payload = MmapPayload
        \<lparr>mmap_pid = pid, mmap_tid = pid, mmap_start = s, mmap_len = l, mmap_pgoff = pgoff,
         mmap_filename = name, mmap_maj = 0, mmap_min = 0, mmap_ino = 0\<rparr>\<rparr>"

definition sample_record ::
  "u32 \<Rightarrow> u32 \<Rightarrow> u64 \<Rightarrow> u64 option \<Rightarrow> u64 list \<Rightarrow> BranchStackEntry list \<Rightarrow> PerfEvent" where
  "sample_record pid tid ip addr cc bs =
     \<lparr>header_type = PERF_RECORD_SAMPLE, header_misc = 2,
      payload = SamplePayload
        \<lparr>sample_ip = ip, sample_pid = pid, sample_tid = tid, sample_addr = addr,
         sample_callchain = cc, sample_branch_stack = bs\<rparr>\<rparr>"

definition branch :: "u64 \<Rightarrow> u64 \<Rightarrow> BranchStackEntry" where
  "branch f t =
     \<lparr>from_ip = f, to_ip = t, mispredicted = False, predicted = True, in_transaction = False,
      abort = False, cycles = 0\<rparr>"

section \<open>The states and records of the examples\<close>

definition mapper_of :: "MappedRange list \<Rightarrow> AddressMapper" where
  "mapper_of rs = \<lparr>mappings = rs, page_alignment = 4096\<rparr>"

definition range_y :: MappedRange where
  "range_y = \<lparr>range_start = 0x2000, range_length = 0x1000, range_page_offset = 0,
              range_event_id = 0, range_is_jit = False\<rparr>"

definition bare_sample :: PerfEvent where
  "bare_sample = \<lparr>header_type = PERF_RECORD_SAMPLE, header_misc = 2, payload = NoPayload\<rparr>"

definition parsed_at :: "nat \<Rightarrow> ParsedEvent" where
  "parsed_at p = default_ParsedEvent\<lparr>event_ptr := p\<rparr>"

definition jit_range :: MappedRange where
  "jit_range = \<lparr>range_start = 0x5000, range_length = 0x10, range_page_offset = 0,
                range_event_id = 1, range_is_jit = True\<rparr>"

definition range_x :: MappedRange where
  "range_x = \<lparr>range_start = 0x6000, range_length = 0x1000, range_page_offset = 0,
              range_event_id = 0, range_is_jit = False\<rparr>"

definition dso_x :: DSOInfo where
  "dso_x = \<lparr>dso_name = ''/bin/x'', build_id = [], dso_maj = 0, dso_min = 0, dso_ino = 0,
            hit = False, threads = {}\<rparr>"

definition dso_jit :: DSOInfo where
  "dso_jit = \<lparr>dso_name = ''/tmp/jitted-7-1.so'', build_id = [], dso_maj = 0, dso_min = 0,
              dso_ino = 0, hit = False, threads = {}\<rparr>"

text \<open>
  The state in which the loop of \<open>ProcessEvents\<close> leaves the parser after the records
  MMAP \<open>/bin/x\<close> at \<open>0x6000\<close> and MMAP of a JIT region of 16 bytes at \<open>0x5000\<close>, both
  of pid 7, in remap mode with unaligned JIT mappings allowed: the JIT interval stands
  before \<open>/bin/x\<close> and moves its synthetic start to \<open>0x10\<close>. (The start of either
  record was rewritten to the synthetic start it had when it was mapped, 0.)
\<close>

definition misaligned_state :: "AddressMapper PerfParser" where
  "misaligned_state =
     (new_PerfParser
        [mmap_record PERF_RECORD_MMAP 2 7 0 0x1000 0 ''/bin/x'',
         mmap_record PERF_RECORD_MMAP 2 7 0 0x10 0 ''/tmp/jitted-7-1.so''])
       \<lparr>parsed_events := [parsed_at 0, parsed_at 1],
        process_mappers := [7 \<mapsto> mapper_of [jit_range, range_x]],
        name_to_dso := [(''/bin/x'', dso_x), (''/tmp/jitted-7-1.so'', dso_jit)]\<rparr>"

text \<open>
  Two kernel mappings of pid \<open>-1\<close>, without remapping. The first has \<open>pgoff\<close> inside
  the mapping (\<open>start = 0x1000\<close>, \<open>len = 0x3000\<close>, \<open>pgoff = 0x2000\<close>): the mapper
  holds the interval from \<open>0x2000\<close> of length \<open>0x2000\<close>. The second has
  \<open>pgoff = start\<close>: the interval is the one of the event. Both have the page offset 0.
\<close>

definition kernel_mmap :: "u64 \<Rightarrow> u64 \<Rightarrow> u64 \<Rightarrow> PerfEvent" where
  "kernel_mmap s l pgoff = mmap_record PERF_RECORD_MMAP 1 (- 1) s l pgoff ''[kernel.kallsyms]_text''"

definition comm_record :: "u32 \<Rightarrow> u32 \<Rightarrow> string \<Rightarrow> PerfEvent" where
  "comm_record pid tid name =
     \<lparr>header_type = PERF_RECORD_COMM, header_misc = 2,
      payload = CommPayload \<lparr>comm_pid = pid, comm_tid = tid, comm_comm = name\<rparr>\<rparr>"







definition malformed_stack :: "BranchStackEntry list" where
  "malformed_stack = [branch 0x1100 0x1200, branch 0 0, branch 0x1300 0x1400]"

text \<open>
  The parser after MMAP \<open>/bin/x\<close> at \<open>0x1000\<close> for pid 7, without remapping, before a
  sample at \<open>0x1100\<close> whose branch stack has a non-null entry behind a null entry.
\<close>

definition c3_state :: "AddressMapper PerfParser" where
  "c3_state =
     (new_PerfParser
        [mmap_record PERF_RECORD_MMAP 2 7 0x1000 0x1000 0 ''/bin/x'',
         sample_record 7 7 0x1100 None [] malformed_stack])
       \<lparr>parsed_events := [parsed_at 0, parsed_at 1],
        process_mappers :=
          [7 \<mapsto> mapper_of [\<lparr>range_start = 0x1000, range_length = 0x1000, range_page_offset = 0,
                               range_event_id = 0, range_is_jit = False\<rparr>]],
        name_to_dso := [(''/bin/x'', dso_x)]\<rparr>"

definition finished_round :: PerfEvent where
  "finished_round = \<lparr>header_type = PERF_RECORD_FINISHED_ROUND, header_misc = 0, payload = NoPayload\<rparr>"

text \<open>
  Five records: MMAP \<open>/bin/x\<close>, an MMAP that no sample hits, a FINISHED\_ROUND, a SAMPLE
  in \<open>/bin/x\<close> with a data address in it, a SAMPLE outside every mapping.
\<close>

definition c5_events :: "PerfEvent list" where
  "c5_events =
     [mmap_record PERF_RECORD_MMAP 2 7 0x1000 0x1000 0 ''/bin/x'',
      mmap_record PERF_RECORD_MMAP2 2 7 0x4000 0x2000 0x1000 ''/lib/unused'',
      finished_round,
      sample_record 7 7 0x1100 (Some 0x1200) [0x1180] [],
      sample_record 7 7 0x9000 None [] []]"

definition c5_options :: "nat PerfParserOptions" where
  "c5_options = (example_options False 0)\<lparr>discard_unused_events := True\<rparr>"

section \<open>Predicates of the statements\<close>

text \<open>
  Mapping an address leaves the events, the statistics, the command table and the
  event pointers alone: it writes \<open>process_mappers_\<close>, the DSO table and
  \<open>num_samples_in_mmap_region\<close> only.
\<close>

definition same_frame :: "'m PerfParser \<Rightarrow> 'm PerfParser \<Rightarrow> bool" where
  "same_frame st st' =
     (events st' = events st \<and> stats st' = stats st \<and>
      map event_ptr (parsed_events st') = map event_ptr (parsed_events st) \<and>
      pidtid_to_comm_map st' = pidtid_to_comm_map st \<and> commands st' = commands st)"

definition same_shape :: "'m PerfParser \<Rightarrow> 'm PerfParser \<Rightarrow> bool" where
  "same_shape st st' =
     (length (events st') = length (events st) \<and>
      map event_ptr (parsed_events st') = map event_ptr (parsed_events st))"


definition same_stacks :: "nat \<Rightarrow> 'm PerfParser \<Rightarrow> 'm PerfParser \<Rightarrow> bool" where
  "same_stacks ptr st st' =
     (sample_branch_stack (sample_event (events st' ! ptr)) =
        sample_branch_stack (sample_event (events st ! ptr)) \<and>
      num_sample_events (stats st') = num_sample_events (stats st) \<and>
      num_sample_events_mapped (stats st') = num_sample_events_mapped (stats st))"

text \<open>
  A malformed branch stack: a non-null entry stands behind a null entry.
\<close>

definition malformed_branch_stack :: "BranchStackEntry list \<Rightarrow> bool" where
  "malformed_branch_stack bs =
     (\<exists>i j. i < j \<and> j < length bs \<and> IsNullBranchStackEntry (bs ! i) \<and>
            \<not> IsNullBranchStackEntry (bs ! j))"

text \<open>
  The fields of a record that claim C5 is about: the type of the record, for an MMAP or
  MMAP2 record the start, the length and the page offset, for a SAMPLE record the ip
  and the data address (with whether it is present).
\<close>

definition addr_fields ::
  "PerfEvent \<Rightarrow> perf_event_type \<times> (u64 \<times> u64 \<times> u64) option \<times> (u64 \<times> u64 option) option" where
  "addr_fields e =
     (header_type e,
      (if header_type e = PERF_RECORD_MMAP \<or> header_type e = PERF_RECORD_MMAP2
       then Some (mmap_start (mmap_event e), mmap_len (mmap_event e), mmap_pgoff (mmap_event e))
       else None),
      (if header_type e = PERF_RECORD_SAMPLE
       then Some (sample_ip (sample_event e), sample_addr (sample_event e))
       else None))"

definition same_addresses :: "'m PerfParser \<Rightarrow> 'm PerfParser \<Rightarrow> bool" where
  "same_addresses st st' = (map addr_fields (events st') = map addr_fields (events st))"

text \<open>
  Each block of \<open>MapSampleEvent\<close> keeps these fields, and keeps the sample payload, when
  the parser does not remap.
\<close>

definition keeps_sample :: "nat \<Rightarrow> 'm PerfParser \<Rightarrow> 'm PerfParser \<Rightarrow> bool" where
  "keeps_sample ptr st st' =
     (same_addresses st st' \<and> has_sample_event (events st' ! ptr) \<and>
      length (events st') = length (events st))"

chapter \<open>Properties\<close>

section \<open>Writing through the pointers\<close>

lemma upd_parsed_simps [simp]:
  "events (upd_parsed i f st) = events st"
  "stats (upd_parsed i f st) = stats st"
  "process_mappers (upd_parsed i f st) = process_mappers st"
  "name_to_dso (upd_parsed i f st) = name_to_dso st"
  "pidtid_to_comm_map (upd_parsed i f st) = pidtid_to_comm_map st"
  "commands (upd_parsed i f st) = commands st"
  "length (parsed_events (upd_parsed i f st)) = length (parsed_events st)"
  by (simp_all add: upd_parsed_def)

lemma upd_event_simps [simp]:
  "parsed_events (upd_event p f st) = parsed_events st"
  "stats (upd_event p f st) = stats st"
  "process_mappers (upd_event p f st) = process_mappers st"
  "name_to_dso (upd_event p f st) = name_to_dso st"
  "pidtid_to_comm_map (upd_event p f st) = pidtid_to_comm_map st"
  "commands (upd_event p f st) = commands st"
  "length (events (upd_event p f st)) = length (events st)"
  by (simp_all add: upd_event_def)

lemma upd_stats_simps [simp]:
  "parsed_events (upd_stats f st) = parsed_events st"
  "events (upd_stats f st) = events st"
  "stats (upd_stats f st) = f (stats st)"
  "process_mappers (upd_stats f st) = process_mappers st"
  "name_to_dso (upd_stats f st) = name_to_dso st"
  "pidtid_to_comm_map (upd_stats f st) = pidtid_to_comm_map st"
  "commands (upd_stats f st) = commands st"
  by (simp_all add: upd_stats_def)

lemma ptrs_upd_parsed:
  "(\<And>p. event_ptr (f p) = event_ptr p) \<Longrightarrow>
     map event_ptr (parsed_events (upd_parsed i f st)) = map event_ptr (parsed_events st)"
  by (cases "i < length (parsed_events st)")
     (simp_all add: upd_parsed_def map_update list_update_same_conv list_update_beyond)

section \<open>What one mapping changes\<close>

lemma GetOrCreateProcessMapper_frame:
  "GetOrCreateProcessMapper env pid ppid st = (r, st') \<Longrightarrow>
     events st' = events st \<and> parsed_events st' = parsed_events st \<and> stats st' = stats st \<and>
     name_to_dso st' = name_to_dso st \<and> pidtid_to_comm_map st' = pidtid_to_comm_map st \<and>
     commands st' = commands st"
  by (auto simp: GetOrCreateProcessMapper_def Let_def split: option.splits)

lemma MapIP_cases:
  assumes "MapIPAndPidAndGetNameAndOffset env options ip pidtid new_ip dao st = Some (r, st')"
  obtains (unmapped) mapper created st1 where
      "GetOrCreateProcessMapper env (fst pidtid) (kKernelPid env) st = ((mapper, created), st1)"
      "GetMappedAddressAndListIterator env mapper ip = None"
      "r = (False, new_ip, dao)" "st' = st1"
  | (found) mapper created st1 mapped_addr ip_iter ident off filename dso where
      "GetOrCreateProcessMapper env (fst pidtid) (kKernelPid env) st = ((mapper, created), st1)"
      "GetMappedAddressAndListIterator env mapper ip = Some (mapped_addr, ip_iter)"
      "GetMappedIDAndOffset env mapper ip ip_iter = (ident, off)"
      "unat ident < length (parsed_events st1)"
      "event_ptr (parsed_events st1 ! unat ident) < length (events st1)"
      "filename = mmap_filename (mmap_event (events st1 ! event_ptr (parsed_events st1 ! unat ident)))"
      "map_of (name_to_dso st1) filename = Some dso"
      "st' = upd_parsed (unat ident)
               (\<lambda>p. p\<lparr>num_samples_in_mmap_region := num_samples_in_mmap_region p + 1\<rparr>)
               (st1\<lparr>name_to_dso :=
                      AList.map_entry filename
                        (\<lambda>d. d\<lparr>hit := True,
                                threads := insert (mergeTwoU32 (fst pidtid) (snd pidtid)) (threads d)\<rparr>)
                        (name_to_dso st1)\<rparr>)"
      "r = (if do_remap options then
              (if GetPageAlignedOffset env mapped_addr \<noteq> GetPageAlignedOffset env ip
               then (False, new_ip, dao\<lparr>offset := off, dso_info := Some filename\<rparr>)
               else (True, mapped_addr, dao\<lparr>offset := off, dso_info := Some filename\<rparr>))
            else (True, ip, dao\<lparr>offset := off, dso_info := Some filename\<rparr>))"
proof -
  obtain mapper created st1 where
    g: "GetOrCreateProcessMapper env (fst pidtid) (kKernelPid env) st = ((mapper, created), st1)"
    by (metis prod.exhaust)
  show thesis
  proof (cases "GetMappedAddressAndListIterator env mapper ip")
    case None
    with assms g show thesis
      by (intro unmapped[OF g None]) (simp_all add: MapIPAndPidAndGetNameAndOffset_def)
  next
    case (Some p)
    obtain mapped_addr ip_iter where p: "p = (mapped_addr, ip_iter)" by (cases p)
    obtain ident off where io: "GetMappedIDAndOffset env mapper ip ip_iter = (ident, off)"
      by (cases "GetMappedIDAndOffset env mapper ip ip_iter")
    from assms g Some p io have a: "unat ident < length (parsed_events st1)"
      by (simp add: MapIPAndPidAndGetNameAndOffset_def split: if_splits)
    from assms g Some p io a have b: "event_ptr (parsed_events st1 ! unat ident) < length (events st1)"
      by (simp add: MapIPAndPidAndGetNameAndOffset_def split: if_splits)
    define filename where
      "filename = mmap_filename (mmap_event (events st1 ! event_ptr (parsed_events st1 ! unat ident)))"
    from assms g Some p io a b obtain dso where d: "map_of (name_to_dso st1) filename = Some dso"
      by (cases "map_of (name_to_dso st1) filename")
         (simp_all add: MapIPAndPidAndGetNameAndOffset_def Let_def filename_def)
    from assms g Some p io a b d show thesis
      by (intro found[OF g Some[unfolded p] io a b filename_def d])
         (simp_all add: MapIPAndPidAndGetNameAndOffset_def Let_def filename_def[symmetric]
            split: if_splits)
  qed
qed

lemma same_frame_refl: "same_frame st st"
  by (simp add: same_frame_def)

lemma same_frame_trans: "same_frame a b \<Longrightarrow> same_frame b c \<Longrightarrow> same_frame a c"
  by (simp add: same_frame_def)

lemma same_frame_length: "same_frame st st' \<Longrightarrow> length (parsed_events st') = length (parsed_events st)"
  unfolding same_frame_def by (metis length_map)

lemma MapIP_frame:
  assumes "MapIPAndPidAndGetNameAndOffset env options ip pidtid new_ip dao st = Some (r, st')"
  shows "same_frame st st'"
  using assms
proof (cases rule: MapIP_cases)
  case (unmapped mapper created st1)
  with GetOrCreateProcessMapper_frame[OF unmapped(1)] show ?thesis
    by (simp add: same_frame_def)
next
  case (found mapper created st1 mapped_addr ip_iter ident off filename dso)
  with GetOrCreateProcessMapper_frame[OF found(1)] show ?thesis
    by (simp add: same_frame_def upd_parsed_def map_update list_update_same_conv)
qed

section \<open>Call chains\<close>

lemma MapCallchain_body_length:
  "MapCallchain_body env options ip pidtid orig i cc pcc n ok st = Some ((cc', pcc', n', ok'), st') \<Longrightarrow>
     length cc' = length cc \<and> length pcc' = length pcc"
  by (auto simp: MapCallchain_body_def Let_def split: if_splits option.splits)

termination MapCallchain_loop
proof (relation "measure (\<lambda>(env, options, ip, pidtid, orig, i, cc, rest). length cc - i)", goal_cases)
  case 1
  show ?case by simp
next
  case (2 env options ip pidtid orig i cc pcc n ok st x2 x y cc' y2 pcc' y3 n' ok')
  then have "MapCallchain_body env options ip pidtid orig i cc pcc n ok st = Some ((cc', pcc', n', ok'), y)"
    by simp
  from MapCallchain_body_length[OF this] 2(1) show ?case by simp
qed

declare MapCallchain_loop.simps [simp del]

section \<open>Branch stacks\<close>

termination MapBranchStack_loop
  by (relation "measure (\<lambda>(env, options, pidtid, trimmed_size, i, rest). trimmed_size - i)") auto

declare MapBranchStack_loop.simps [simp del]

section \<open>What the call-chain and branch-stack mappings change\<close>

lemma MapCallchain_body_frame:
  "MapCallchain_body env options ip pidtid orig i cc pcc n ok st = Some (r, st') \<Longrightarrow> same_frame st st'"
  by (auto simp: MapCallchain_body_def Let_def same_frame_refl
           split: if_splits option.splits dest: MapIP_frame)

lemma MapCallchain_loop_frame:
  "MapCallchain_loop env options ip pidtid orig i cc pcc n ok st = Some (r, st') \<Longrightarrow> same_frame st st'"
proof (induction env options ip pidtid orig i cc pcc n ok st rule: MapCallchain_loop.induct)
  case (1 env options ip pidtid orig i cc pcc n ok st)
  note prems = "1.prems"[unfolded MapCallchain_loop.simps[of env options ip pidtid orig i]]
  show ?case
  proof (cases "i < length cc")
    case False
    with prems show ?thesis by (simp add: same_frame_refl)
  next
    case True
    with prems obtain cc' pcc' n' ok' st1 where
      b: "MapCallchain_body env options ip pidtid orig i cc pcc n ok st = Some ((cc', pcc', n', ok'), st1)"
      and l: "MapCallchain_loop env options ip pidtid orig (i + 1) cc' pcc' n' ok' st1 = Some (r, st')"
      by (auto split: option.splits)
    from "1.IH" True b l have "same_frame st1 st'" by simp
    with MapCallchain_body_frame[OF b] show ?thesis by (rule same_frame_trans)
  qed
qed

lemma MapCallchain_frame:
  "MapCallchain env options ip pidtid orig cc pcc st = Some (r, st') \<Longrightarrow> same_frame st st'"
  by (auto simp: MapCallchain_def same_frame_refl split: if_splits option.splits
           dest: MapCallchain_loop_frame)

lemma MapBranchStack_body_frame:
  assumes "MapBranchStack_body env options pidtid i bs pbs st = Some (r, st')"
  shows "same_frame st st'"
proof -
  from assms obtain ok a d st1 where
    m1: "MapIPAndPidAndGetNameAndOffset env options (from_ip (bs ! i)) pidtid 0 (be_from (pbs ! i)) st
           = Some ((ok, a, d), st1)"
    by (auto simp: MapBranchStack_body_def split: option.splits)
  note f1 = MapIP_frame[OF m1]
  show ?thesis
  proof (cases ok)
    case False
    with assms m1 f1 show ?thesis by (simp add: MapBranchStack_body_def Let_def)
  next
    case True
    with assms m1 obtain r2 st2 where
      m2: "MapIPAndPidAndGetNameAndOffset env options
             (to_ip (bs[i := (bs ! i)\<lparr>from_ip := a\<rparr>] ! i)) pidtid 0
             (be_to (pbs[i := (pbs ! i)\<lparr>be_from := d\<rparr>] ! i)) st1 = Some (r2, st2)"
      and st': "st' = st2"
      by (auto simp: MapBranchStack_body_def Let_def split: option.splits if_splits)
    from MapIP_frame[OF m2] f1 st' show ?thesis by (auto intro: same_frame_trans)
  qed
qed

lemma MapBranchStack_loop_frame:
  "MapBranchStack_loop env options pidtid t i bs pbs st = Some (r, st') \<Longrightarrow> same_frame st st'"
proof (induction env options pidtid t i bs pbs st rule: MapBranchStack_loop.induct)
  case (1 env options pidtid t i bs pbs st)
  note prems = "1.prems"[unfolded MapBranchStack_loop.simps[of env options pidtid t i]]
  show ?case
  proof (cases "i < t")
    case False
    with prems show ?thesis by (simp add: same_frame_refl)
  next
    case True
    with prems obtain go bs' pbs' st1 where
      b: "MapBranchStack_body env options pidtid i bs pbs st = Some ((go, bs', pbs'), st1)"
      by (auto split: option.splits)
    show ?thesis
    proof (cases go)
      case False
      with True b prems have "st' = st1" by simp
      with MapBranchStack_body_frame[OF b] show ?thesis by simp
    next
      case g: True
      with True b prems have
        l: "MapBranchStack_loop env options pidtid t (i + 1) bs' pbs' st1 = Some (r, st')" by simp
      from "1.IH" True b g l have "same_frame st1 st'" by simp
      with MapBranchStack_body_frame[OF b] show ?thesis by (rule same_frame_trans)
    qed
  qed
qed

lemma MapBranchStack_frame:
  "MapBranchStack env options pidtid bs pbs st = Some (r, st') \<Longrightarrow> same_frame st st'"
  by (auto simp: MapBranchStack_def Let_def same_frame_refl split: if_splits
           dest: MapBranchStack_loop_frame)

section \<open>Samples\<close>

lemma MapSampleEvent_main_cases:
  assumes "MapSampleEvent_main env options cur ptr st = Some (r, st')"
  obtains ok_ip st3 ok_addr st4 ok_cc st5 ok_bs st6 where
    "MapSampleEvent_ip env options cur ptr
       (sample_pid (sample_event (events st ! ptr)), sample_tid (sample_event (events st ! ptr)))
       (MapSampleEvent_command cur
          (sample_pid (sample_event (events st ! ptr)), sample_tid (sample_event (events st ! ptr))) st)
     = Some (ok_ip, st3)"
    "MapSampleEvent_addr env options cur ptr
       (sample_pid (sample_event (events st ! ptr)), sample_tid (sample_event (events st ! ptr))) st3
     = Some (ok_addr, st4)"
    "MapSampleEvent_callchain env options cur ptr
       (sample_pid (sample_event (events st ! ptr)), sample_tid (sample_event (events st ! ptr)))
       (sample_ip (sample_event (events st ! ptr))) st4 = Some (ok_cc, st5)"
    "MapSampleEvent_branch_stack env options cur ptr
       (sample_pid (sample_event (events st ! ptr)), sample_tid (sample_event (events st ! ptr))) st5
     = Some (ok_bs, st6)"
    "r = (ok_ip, ok_addr, ok_cc, ok_bs)"
    "st' = (if ok_ip \<and> ok_cc \<and> ok_bs then
              upd_stats (\<lambda>s. s\<lparr>num_sample_events_mapped := num_sample_events_mapped s + 1\<rparr>) st6
            else st6)"
  using assms unfolding MapSampleEvent_main_def Let_def
  by (auto split: option.splits)

section \<open>The event pointers and the number of events stay as they are\<close>

lemma same_shape_refl: "same_shape st st"
  by (simp add: same_shape_def)

lemma same_shape_trans: "same_shape a b \<Longrightarrow> same_shape b c \<Longrightarrow> same_shape a c"
  by (simp add: same_shape_def)

lemma same_frame_shape: "same_frame st st' \<Longrightarrow> same_shape st st'"
  by (simp add: same_frame_def same_shape_def)

lemma same_shape_length:
  "same_shape st st' \<Longrightarrow> length (parsed_events st') = length (parsed_events st)"
  unfolding same_shape_def by (metis length_map)

lemma same_shape_upd [simp]:
  "same_shape st (upd_event p f st') = same_shape st st'"
  "same_shape st (upd_stats g st') = same_shape st st'"
  "same_shape (upd_event p f st) st' = same_shape st st'"
  "same_shape (upd_stats g st) st' = same_shape st st'"
  by (simp_all add: same_shape_def)

lemma same_shape_upd_parsed:
  "(\<And>p. event_ptr (f p) = event_ptr p) \<Longrightarrow> same_shape st (upd_parsed i f st') = same_shape st st'"
  "(\<And>p. event_ptr (f p) = event_ptr p) \<Longrightarrow> same_shape (upd_parsed i f st) st' = same_shape st st'"
  by (simp_all add: same_shape_def ptrs_upd_parsed)

lemma GetOrCreateProcessMapper_shape:
  "same_shape st (snd (GetOrCreateProcessMapper env pid ppid st))"
  using GetOrCreateProcessMapper_frame[of env pid ppid st]
  by (cases "GetOrCreateProcessMapper env pid ppid st") (simp add: same_shape_def)

lemma MapSampleEvent_command_shape: "same_shape st (MapSampleEvent_command cur pidtid st)"
  by (simp add: MapSampleEvent_command_def same_shape_refl same_shape_upd_parsed split: option.splits)

lemma MapSampleEvent_ip_shape:
  "MapSampleEvent_ip env options cur ptr pidtid st = Some (ok, st') \<Longrightarrow> same_shape st st'"
  by (auto simp: MapSampleEvent_ip_def Let_def same_shape_upd_parsed
           split: option.splits if_splits dest!: MapIP_frame same_frame_shape)

lemma MapSampleEvent_addr_shape:
  "MapSampleEvent_addr env options cur ptr pidtid st = Some (ok, st') \<Longrightarrow> same_shape st st'"
  by (auto simp: MapSampleEvent_addr_def Let_def same_shape_refl same_shape_upd_parsed
           split: option.splits if_splits dest!: MapIP_frame same_frame_shape)

lemma MapSampleEvent_callchain_shape:
  "MapSampleEvent_callchain env options cur ptr pidtid ip st = Some (ok, st') \<Longrightarrow> same_shape st st'"
  by (auto simp: MapSampleEvent_callchain_def Let_def same_shape_refl same_shape_upd_parsed
           split: option.splits if_splits dest!: MapCallchain_frame same_frame_shape)

lemma MapSampleEvent_branch_stack_shape:
  "MapSampleEvent_branch_stack env options cur ptr pidtid st = Some (ok, st') \<Longrightarrow> same_shape st st'"
  by (auto simp: MapSampleEvent_branch_stack_def Let_def same_shape_refl same_shape_upd_parsed
           split: option.splits if_splits dest!: MapBranchStack_frame same_frame_shape)

lemma MapSampleEvent_main_shape:
  assumes "MapSampleEvent_main env options cur ptr st = Some (r, st')"
  shows "same_shape st st'"
  using assms
proof (cases rule: MapSampleEvent_main_cases)
  case (1 ok_ip st3 ok_addr st4 ok_cc st5 ok_bs st6)
  from MapSampleEvent_command_shape MapSampleEvent_ip_shape[OF 1(1)] MapSampleEvent_addr_shape[OF 1(2)]
       MapSampleEvent_callchain_shape[OF 1(3)] MapSampleEvent_branch_stack_shape[OF 1(4)]
  have "same_shape st st6" by (blast intro: same_shape_trans)
  with 1(6) show ?thesis by simp
qed

lemma MapSampleEvent_shape:
  "MapSampleEvent env options cur st = Some st' \<Longrightarrow> same_shape st st'"
  by (auto simp: MapSampleEvent_def Let_def same_shape_refl split: if_splits
           dest: MapSampleEvent_main_shape)

lemma MapMmapEvent_shape:
  "MapMmapEvent env options ptr ident is_kernel st = (ok, st') \<Longrightarrow> same_shape st st'"
  using GetOrCreateProcessMapper_shape[of st env "mmap_pid (mmap_event (events st ! ptr))" "kKernelPid env"]
  by (auto simp: MapMmapEvent_def Let_def same_shape_def
           split: prod.splits option.splits if_splits)

lemma ProcessMmapEvent_shape:
  "ProcessMmapEvent env options i ptr fk st = Some (c, fk', st') \<Longrightarrow> same_shape st st'"
  by (auto simp: ProcessMmapEvent_def Let_def same_shape_def ptrs_upd_parsed
           split: prod.splits if_splits dest!: MapMmapEvent_shape)

lemma MapForkEvent_shape: "same_shape st (snd (MapForkEvent env event st))"
proof -
  have "same_shape st' (snd (GetOrCreateProcessMapper env p q st'))" for st' :: "'a PerfParser" and p q
    by (rule GetOrCreateProcessMapper_shape)
  then show ?thesis
    by (auto simp: MapForkEvent_def Let_def same_shape_def split: option.splits)
qed

lemma MapCommEvent_shape: "same_shape st (snd (MapCommEvent env event st))"
  by (simp add: MapCommEvent_def GetOrCreateProcessMapper_shape)

lemma ProcessEvent_shape:
  assumes "ProcessEvent env options i fk st = Some (c, fk', st')"
  shows "same_shape st st'"
proof -
  let ?t = "header_type (events st ! event_ptr (parsed_events st ! i))"
  from assms have v: "event_ptr (parsed_events st ! i) < length (events st)"
    by (simp add: ProcessEvent_def Let_def split: if_splits)
  consider (user) "is_user_type ?t"
    | (sample) "\<not> is_user_type ?t" "?t = PERF_RECORD_SAMPLE"
    | (mmap) "\<not> is_user_type ?t" "?t = PERF_RECORD_MMAP \<or> ?t = PERF_RECORD_MMAP2"
    | (fork) "\<not> is_user_type ?t" "?t = PERF_RECORD_FORK"
    | (exit) "\<not> is_user_type ?t" "?t = PERF_RECORD_EXIT"
    | (comm) "\<not> is_user_type ?t" "?t = PERF_RECORD_COMM"
    | (other) "\<not> is_user_type ?t" "?t \<noteq> PERF_RECORD_SAMPLE" "?t \<noteq> PERF_RECORD_MMAP"
        "?t \<noteq> PERF_RECORD_MMAP2" "?t \<noteq> PERF_RECORD_FORK" "?t \<noteq> PERF_RECORD_EXIT"
        "?t \<noteq> PERF_RECORD_COMM"
    by blast
  then show ?thesis
  proof cases
    case user
    with assms v show ?thesis
      by (simp add: ProcessEvent_def Let_def ProcessUserEvents_def same_shape_refl)
  next
    case sample
    with assms v obtain st1 where
      "MapSampleEvent env options i
         (upd_stats (\<lambda>s. s\<lparr>num_sample_events := num_sample_events s + 1\<rparr>) st) = Some st1"
      "st' = st1"
      by (auto simp: ProcessEvent_def Let_def split: option.splits)
    with MapSampleEvent_shape[OF this(1)] show ?thesis by simp
  next
    case mmap
    with assms v have "ProcessMmapEvent env options i (event_ptr (parsed_events st ! i)) fk st
                        = Some (c, fk', st')"
      by (auto simp: ProcessEvent_def Let_def)
    then show ?thesis by (rule ProcessMmapEvent_shape)
  next
    case fork
    with assms v have "st' = snd (MapForkEvent env
                          (fork_event (events st ! event_ptr (parsed_events st ! i)))
                          (upd_stats (\<lambda>s. s\<lparr>num_fork_events := num_fork_events s + 1\<rparr>) st))"
      by (auto simp: ProcessEvent_def Let_def split: prod.splits if_splits)
    with MapForkEvent_shape[of "upd_stats (\<lambda>s. s\<lparr>num_fork_events := num_fork_events s + 1\<rparr>) st"]
    show ?thesis by simp
  next
    case exit
    with assms v show ?thesis by (auto simp: ProcessEvent_def Let_def same_shape_refl)
  next
    case comm
    with assms v obtain st1 where
      s1: "st1 = snd (MapCommEvent env
                          (comm_event (events st ! event_ptr (parsed_events st ! i)))
                          (upd_stats (\<lambda>s. s\<lparr>num_comm_events := num_comm_events s + 1\<rparr>) st))"
      and "events st' = events st1" "parsed_events st' = parsed_events st1"
      by (auto simp: ProcessEvent_def Let_def split: prod.splits if_splits)
    with MapCommEvent_shape[of "upd_stats (\<lambda>s. s\<lparr>num_comm_events := num_comm_events s + 1\<rparr>) st"]
    show ?thesis by (simp add: same_shape_def)
  next
    case other
    with assms v show ?thesis
      by (auto simp: ProcessEvent_def Let_def same_shape_refl split: if_splits)
  qed
qed

section \<open>ProcessEvents and ParseRawEvents\<close>

termination ProcessEvents_loop
proof (relation "measure (\<lambda>(env, options, i, fk, st). length (parsed_events st) - i)", goal_cases)
  case 1
  show ?case by simp
next
  case (2 env options i fk st x2 go_on y fk' st')
  then have "ProcessEvent env options i fk st = Some (go_on, fk', st')" by simp
  from same_shape_length[OF ProcessEvent_shape[OF this]] 2(1) show ?case by simp
qed

declare ProcessEvents_loop.simps [simp del]

section \<open>FORK events (claim C6)\<close>

text \<open>
  Claim C6. For every FORK event: when \<open>ppid = pid\<close> no process mapper is created;
  otherwise, when \<open>pid\<close> has no mapper yet, one is created for it as a copy of the
  mapper of \<open>ppid\<close>, or, when \<open>ppid\<close> has none, as a copy of the mapper of the kernel
  pid, or, when that does not exist either, as a fresh mapper with the page alignment
  \<open>kMmapPageAlignment\<close>; when \<open>pid\<close> has a mapper already the table stays as it is.
  The event always maps (\<open>MapForkEvent\<close> returns \<open>true\<close>).
\<close>

theorem C6_fork_creates_mapper:
  "(fork_ppid event = fork_pid event \<longrightarrow>
      process_mappers (snd (MapForkEvent env event st)) = process_mappers st) \<and>
   (fork_ppid event \<noteq> fork_pid event \<longrightarrow> process_mappers st (fork_pid event) = None \<longrightarrow>
      process_mappers (snd (MapForkEvent env event st)) =
        (process_mappers st)(fork_pid event \<mapsto>
           (case process_mappers st (fork_ppid event) of
              Some parent \<Rightarrow> parent
            | None \<Rightarrow>
                (case process_mappers st (kKernelPid env) of
                   Some kernel_mapper \<Rightarrow> kernel_mapper
                 | None \<Rightarrow> set_page_alignment env (new_AddressMapper env) (kMmapPageAlignment env))))) \<and>
   (fork_ppid event \<noteq> fork_pid event \<longrightarrow> process_mappers st (fork_pid event) \<noteq> None \<longrightarrow>
      process_mappers (snd (MapForkEvent env event st)) = process_mappers st) \<and>
   fst (MapForkEvent env event st)"
  by (auto simp: MapForkEvent_def GetOrCreateProcessMapper_def Let_def split: option.splits)

theorem C6_fork_creates_mapper_witness:
  "process_mappers
     (snd (MapForkEvent (example_platform {})
             \<lparr>fork_pid = 11, fork_ppid = 10, fork_tid = 11, fork_ptid = 10\<rparr>
             ((new_PerfParser [])\<lparr>process_mappers := [10 \<mapsto> mapper_of [range_y]]\<rparr>))) 11
     = Some (mapper_of [range_y]) \<and>
   process_mappers
     (snd (MapForkEvent (example_platform {})
             \<lparr>fork_pid = 11, fork_ppid = 10, fork_tid = 11, fork_ptid = 10\<rparr>
             ((new_PerfParser [])\<lparr>process_mappers := [- 1 \<mapsto> mapper_of [range_y]]\<rparr>))) 11
     = Some (mapper_of [range_y]) \<and>
   process_mappers
     (snd (MapForkEvent (example_platform {})
             \<lparr>fork_pid = 11, fork_ppid = 10, fork_tid = 11, fork_ptid = 10\<rparr>
             (new_PerfParser []))) 11
     = Some (mapper_of []) \<and>
   process_mappers
     (snd (MapForkEvent (example_platform {})
             \<lparr>fork_pid = 10, fork_ppid = 10, fork_tid = 12, fork_ptid = 10\<rparr>
             (new_PerfParser []))) 10
     = None"
  using
    C6_fork_creates_mapper [of "\<lparr>fork_pid = 11, fork_ppid = 10, fork_tid = 11, fork_ptid = 10\<rparr>"
      "example_platform {}" "(new_PerfParser [])\<lparr>process_mappers := [10 \<mapsto> mapper_of [range_y]]\<rparr>"]
    C6_fork_creates_mapper [of "\<lparr>fork_pid = 11, fork_ppid = 10, fork_tid = 11, fork_ptid = 10\<rparr>"
      "example_platform {}" "(new_PerfParser [])\<lparr>process_mappers := [- 1 \<mapsto> mapper_of [range_y]]\<rparr>"]
    C6_fork_creates_mapper [of "\<lparr>fork_pid = 11, fork_ppid = 10, fork_tid = 11, fork_ptid = 10\<rparr>"
      "example_platform {}" "new_PerfParser []"]
    C6_fork_creates_mapper [of "\<lparr>fork_pid = 10, fork_ppid = 10, fork_tid = 12, fork_ptid = 10\<rparr>"
      "example_platform {}" "new_PerfParser []"]
  by (simp add: new_PerfParser_def example_platform_def mapper_of_def new_mapper_def
        mapper_set_page_alignment_def)

section \<open>SAMPLE records without a sample payload (claim C10)\<close>

text \<open>
  Claim C10. For a record whose header type is SAMPLE and which carries no sample
  payload, \<open>MapSampleEvent\<close> returns at once without touching the state, and the
  iteration of \<open>ProcessEvents\<close> on it only increments \<open>num_sample_events\<close>: the loop
  goes on and \<open>num_sample_events_mapped\<close> keeps its value. So, unless the 32-bit
  counter wraps, the fraction of mapped samples does not grow:
  \<open>mapped' / total' \<le> mapped / total\<close>, written without the division.
\<close>

theorem C10_sample_without_payload:
  assumes "event_ptr (parsed_events st ! i) < length (events st)"
    and "header_type (events st ! event_ptr (parsed_events st ! i)) = PERF_RECORD_SAMPLE"
    and "\<not> has_sample_event (events st ! event_ptr (parsed_events st ! i))"
  shows "MapSampleEvent env options i
           (upd_stats (\<lambda>s. s\<lparr>num_sample_events := num_sample_events s + 1\<rparr>) st) =
           Some (upd_stats (\<lambda>s. s\<lparr>num_sample_events := num_sample_events s + 1\<rparr>) st) \<and>
         (\<exists>st'. ProcessEvent env options i first_kernel_mmap st = Some (True, first_kernel_mmap, st') \<and>
            num_sample_events (stats st') = num_sample_events (stats st) + 1 \<and>
            num_sample_events_mapped (stats st') = num_sample_events_mapped (stats st) \<and>
            (num_sample_events (stats st) \<noteq> - 1 \<longrightarrow>
               unat (num_sample_events_mapped (stats st')) * unat (num_sample_events (stats st)) \<le>
               unat (num_sample_events_mapped (stats st)) * unat (num_sample_events (stats st'))))"
proof -
  have "unat (num_sample_events (stats st)) \<le> unat (num_sample_events (stats st) + 1)"
    if "num_sample_events (stats st) \<noteq> - 1"
  proof -
    from that have "1 + num_sample_events (stats st) \<noteq> 0"
      by (simp add: eq_neg_iff_add_eq_0 add.commute)
    from unatSuc[OF this] show ?thesis by (simp add: add.commute)
  qed
  with assms show ?thesis
    by (simp add: ProcessEvent_def MapSampleEvent_def Let_def)
qed

theorem C10_sample_without_payload_witness:
  "(case ProcessEvent (example_platform {}) (example_options True 95) 0 True
           ((new_PerfParser [bare_sample])\<lparr>parsed_events := [parsed_at 0]\<rparr>) of
      Some (go_on, fk, st') \<Rightarrow>
        go_on \<and> num_sample_events (stats st') = 1 \<and> num_sample_events_mapped (stats st') = 0
    | None \<Rightarrow> False)"
proof -
  let ?st = "(new_PerfParser [bare_sample])\<lparr>parsed_events := [parsed_at 0]\<rparr>"
  have 1: "event_ptr (parsed_events ?st ! 0) < length (events ?st)"
    by (simp add: new_PerfParser_def parsed_at_def default_ParsedEvent_def)
  have 2: "header_type (events ?st ! event_ptr (parsed_events ?st ! 0)) = PERF_RECORD_SAMPLE"
    by (simp add: new_PerfParser_def parsed_at_def default_ParsedEvent_def bare_sample_def)
  have 3: "\<not> has_sample_event (events ?st ! event_ptr (parsed_events ?st ! 0))"
    by (simp add: new_PerfParser_def parsed_at_def default_ParsedEvent_def bare_sample_def
          has_sample_event_def)
  from C10_sample_without_payload[OF 1 2 3, of "example_platform {}" "example_options True 95" True]
  show ?thesis by (auto simp: new_PerfParser_def zero_stats_def)
qed

section \<open>A failed page-alignment check (claim C9)\<close>

text \<open>
  Claim C9. In remap mode, when the address is found in an interval of the process
  mapper and the synthetic address and the address differ in their offset in the page,
  \<open>MapIPAndPidAndGetNameAndOffset\<close> returns \<open>false\<close> and leaves \<open>*new_ip\<close> as it
  was, yet what it did before the check stays done: the DSO of the owning MMAP record
  has its \<open>hit\<close> flag set and the pair (pid, tid) in its \<open>threads\<close>, the
  \<open>num_samples_in_mmap_region\<close> of that record is one higher, and
  \<open>*dso_and_offset\<close> is written.
\<close>

theorem C9_alignment_failure_keeps_side_effects:
  assumes "do_remap options"
    and "mapper = fst (fst (GetOrCreateProcessMapper env (fst pidtid) (kKernelPid env) st))"
    and "GetMappedAddressAndListIterator env mapper ip = Some (mapped_addr, ip_iter)"
    and "GetMappedIDAndOffset env mapper ip ip_iter = (ident, off)"
    and "unat ident < length (parsed_events st)"
    and "event_ptr (parsed_events st ! unat ident) < length (events st)"
    and "filename = mmap_filename (mmap_event (events st ! event_ptr (parsed_events st ! unat ident)))"
    and "map_of (name_to_dso st) filename = Some dso"
    and "GetPageAlignedOffset env mapped_addr \<noteq> GetPageAlignedOffset env ip"
  shows "\<exists>st'. MapIPAndPidAndGetNameAndOffset env options ip pidtid new_ip dao st =
                 Some ((False, new_ip, dao\<lparr>offset := off, dso_info := Some filename\<rparr>), st') \<and>
           map_of (name_to_dso st') filename =
             Some (dso\<lparr>hit := True,
                       threads := insert (mergeTwoU32 (fst pidtid) (snd pidtid)) (threads dso)\<rparr>) \<and>
           parsed_events st' =
             (parsed_events st)[unat ident :=
                (parsed_events st ! unat ident)
                  \<lparr>num_samples_in_mmap_region :=
                     num_samples_in_mmap_region (parsed_events st ! unat ident) + 1\<rparr>]"
proof -
  obtain created st1 where
    g: "GetOrCreateProcessMapper env (fst pidtid) (kKernelPid env) st = ((mapper, created), st1)"
    using assms(2) by (metis prod.collapse)
  note f = GetOrCreateProcessMapper_frame[OF g]
  from assms g f show ?thesis
    by (simp add: MapIPAndPidAndGetNameAndOffset_def Let_def upd_parsed_def map_of_map_entry)
qed

theorem C9_alignment_failure_keeps_side_effects_witness:
  "(case MapIPAndPidAndGetNameAndOffset (example_platform {}) (example_options True 95) 0x6004 (7, 8)
           0 default_DSOAndOffset misaligned_state of
      Some ((mapped, new_ip, dao), st') \<Rightarrow>
        \<not> mapped \<and> new_ip = 0 \<and> dao = \<lparr>dso_info = Some ''/bin/x'', offset = 4\<rparr> \<and>
        map_of (name_to_dso st') ''/bin/x'' = Some (dso_x\<lparr>hit := True, threads := {0x700000008}\<rparr>) \<and>
        num_samples_in_mmap_region (parsed_events st' ! 0) = 1
    | None \<Rightarrow> False)"
proof -
  let ?env = "example_platform {}"
  let ?m = "mapper_of [jit_range, range_x]"
  have 1: "do_remap (example_options True 95)" by (simp add: example_options_def)
  have 2: "?m = fst (fst (GetOrCreateProcessMapper ?env (fst (7, 8)) (kKernelPid ?env) misaligned_state))"
    by (simp add: GetOrCreateProcessMapper_def misaligned_state_def new_PerfParser_def)
  have 3: "GetMappedAddressAndListIterator ?env ?m 0x6004 = Some (0x14, 1)"
    by (simp add: example_platform_def mapper_GetMappedAddressAndListIterator_def mapper_of_def
          jit_range_def range_x_def range_contains_def)
  have 4: "GetMappedIDAndOffset ?env ?m 0x6004 1 = (0, 4)"
    by (simp add: example_platform_def mapper_GetMappedIDAndOffset_def mapper_of_def
          jit_range_def range_x_def)
  have 5: "unat (0 :: u64) < length (parsed_events misaligned_state)"
    by (simp add: misaligned_state_def)
  have 6: "event_ptr (parsed_events misaligned_state ! unat (0 :: u64)) < length (events misaligned_state)"
    by (simp add: misaligned_state_def parsed_at_def default_ParsedEvent_def new_PerfParser_def)
  have 7: "''/bin/x'' = mmap_filename (mmap_event (events misaligned_state !
             event_ptr (parsed_events misaligned_state ! unat (0 :: u64))))"
    by (simp add: misaligned_state_def parsed_at_def default_ParsedEvent_def new_PerfParser_def
          mmap_record_def mmap_event_def)
  have 8: "map_of (name_to_dso misaligned_state) ''/bin/x'' = Some dso_x"
    by (simp add: misaligned_state_def)
  have 9: "GetPageAlignedOffset ?env 0x14 \<noteq> GetPageAlignedOffset ?env 0x6004"
    by (simp add: GetPageAlignedOffset_def example_platform_def)
  from C9_alignment_failure_keeps_side_effects[OF 1 2 3 4 5 6 7 8 9, of 0 default_DSOAndOffset]
  show ?thesis
    by (auto simp: default_DSOAndOffset_def dso_x_def mergeTwoU32_def misaligned_state_def
          parsed_at_def default_ParsedEvent_def)
qed

section \<open>Normalising the kernel mapping (claim C4)\<close>

text \<open>
  Where \<open>start + len\<close> does not wrap around, the test of the code is the test on the
  numbers: \<open>pgoff\<close> lies strictly between \<open>start\<close> and \<open>start + len\<close>.
\<close>

lemma kernel_test_without_wrap:
  fixes start len pgoff :: u64
  assumes "unat start + unat len < 2 ^ 64"
  shows "(pgoff > start \<and> pgoff < start + len) =
         (unat start < unat pgoff \<and> unat pgoff < unat start + unat len)"
proof -
  from assms have "unat (start + len) = unat start + unat len"
    by (simp add: unat_add_lem[THEN iffD1])
  then show ?thesis by (simp add: word_less_nat_alt)
qed

text \<open>
  Claim C4. For an MMAP or MMAP2 event mapped with \<open>is_kernel = true\<close>, with
  \<open>start\<close>, \<open>len\<close> and \<open>pgoff\<close> the fields of the event and the sum \<open>start + len\<close>
  taken in 64 bits as the code takes it: when \<open>start < pgoff < start + len\<close> the
  interval handed to \<open>MapWithID\<close> starts at \<open>pgoff\<close> and has the length
  \<open>len + start - pgoff\<close>, otherwise it starts at \<open>start\<close> and has the length
  \<open>len\<close>; in both cases its page offset is 0. The mapper of the event's pid is the
  one this call of \<open>MapWithID\<close> leaves.
\<close>

theorem C4_kernel_mmap_normalized:
  assumes "event = mmap_event (events st ! ptr)"
    and "mapper = fst (fst (GetOrCreateProcessMapper env (mmap_pid event) (kKernelPid env) st))"
    and "is_jit = (allow_unaligned_jit_mappings options \<and>
                   contains_substring ''jitted-'' (mmap_filename event))"
  shows "(mmap_start event < mmap_pgoff event \<and> mmap_pgoff event < mmap_start event + mmap_len event \<longrightarrow>
            process_mappers (snd (MapMmapEvent env options ptr ident True st)) (mmap_pid event) =
              Some (snd (MapWithID env mapper (mmap_pgoff event)
                           (mmap_len event + mmap_start event - mmap_pgoff event) ident 0 True is_jit))) \<and>
         (\<not> (mmap_start event < mmap_pgoff event \<and> mmap_pgoff event < mmap_start event + mmap_len event) \<longrightarrow>
            process_mappers (snd (MapMmapEvent env options ptr ident True st)) (mmap_pid event) =
              Some (snd (MapWithID env mapper (mmap_start event) (mmap_len event) ident 0 True is_jit)))"
proof -
  obtain created st1 where
    g: "GetOrCreateProcessMapper env (mmap_pid event) (kKernelPid env) st = ((mapper, created), st1)"
    using assms(2) by (metis prod.collapse)
  note f = GetOrCreateProcessMapper_frame[OF g]
  from g f assms(1,3) show ?thesis
    by (auto simp: MapMmapEvent_def Let_def split: prod.splits option.splits)
qed

theorem C4_kernel_mmap_normalized_witness:
  "process_mappers
     (snd (MapMmapEvent (example_platform {}) (example_options False 95) 0 0 True
             (new_PerfParser [kernel_mmap 0x1000 0x3000 0x2000]))) (- 1) =
     Some (mapper_of
             [\<lparr>range_start = 0x2000, range_length = 0x2000, range_page_offset = 0,
               range_event_id = 0, range_is_jit = False\<rparr>]) \<and>
   process_mappers
     (snd (MapMmapEvent (example_platform {}) (example_options False 95) 0 0 True
             (new_PerfParser [kernel_mmap 0x80008000 0x10000 0x80008000]))) (- 1) =
     Some (mapper_of
             [\<lparr>range_start = 0x80008000, range_length = 0x10000, range_page_offset = 0,
               range_event_id = 0, range_is_jit = False\<rparr>])"
  using
    C4_kernel_mmap_normalized
      [of "mmap_event (kernel_mmap 0x1000 0x3000 0x2000)"
          "new_PerfParser [kernel_mmap 0x1000 0x3000 0x2000]" 0
          "mapper_of []" "example_platform {}" False "example_options False 95" 0]
    C4_kernel_mmap_normalized
      [of "mmap_event (kernel_mmap 0x80008000 0x10000 0x80008000)"
          "new_PerfParser [kernel_mmap 0x80008000 0x10000 0x80008000]" 0
          "mapper_of []" "example_platform {}" False "example_options False 95" 0]
  by (simp add: kernel_mmap_def mmap_record_def mmap_event_def new_PerfParser_def
        GetOrCreateProcessMapper_def example_platform_def example_options_def mapper_of_def
        new_mapper_def mapper_set_page_alignment_def mapper_MapWithID_def page_aligned_def Let_def)

section \<open>A parse without sample events (claim C2)\<close>

text \<open>
  Claim C2, as the code has it. When \<open>ProcessEvents\<close> ends with
  \<open>num_sample_events = 0\<close> it returns \<open>false\<close>, whether or not \<open>PERF_RECORD_SAMPLE\<close>
  is among the reader's event types to skip when serializing: the theorem holds for
  every platform, so for every such set. The set only selects the message that is
  logged.
\<close>

theorem C2_no_samples_fails:
  assumes "ProcessEvents env options st = Some (ok, st')"
    and "num_sample_events (stats st') = 0"
  shows "\<not> ok"
  using assms
  by (auto simp: ProcessEvents_def Let_def split: option.splits prod.splits if_splits)

theorem C2_no_samples_fails_witness:
  "(case ProcessEvents (example_platform {}) (example_options False 0)
           ((new_PerfParser [comm_record 10 10 ''a''])\<lparr>parsed_events := [parsed_at 0]\<rparr>) of
      Some (ok, st') \<Rightarrow> \<not> ok \<and> num_sample_events (stats st') = 0 \<and> num_comm_events (stats st') = 1
    | None \<Rightarrow> False)"
proof -
  let ?r = "ProcessEvents (example_platform {}) (example_options False 0)
              ((new_PerfParser [comm_record 10 10 ''a''])\<lparr>parsed_events := [parsed_at 0]\<rparr>)"
  have e: "(case ?r of Some (ok, st') \<Rightarrow> num_sample_events (stats st') = 0 \<and> num_comm_events (stats st') = 1
           | None \<Rightarrow> False)"
    by code_simp
  then obtain ok st' where r: "?r = Some (ok, st')"
    and s: "num_sample_events (stats st') = 0" "num_comm_events (stats st') = 1"
    by (auto split: option.splits)
  from C2_no_samples_fails[OF r s(1)] r s show ?thesis by simp
qed

text \<open>
  The claim as it was stated fails: with \<open>PERF_RECORD_SAMPLE\<close> in the set of skipped
  event types and no record at all, \<open>ProcessEvents\<close> returns \<open>false\<close> with
  \<open>num_sample_events = 0\<close>.
\<close>

theorem C2_skipped_samples_counterexample:
  "PERF_RECORD_SAMPLE \<in> event_types_to_skip_when_serializing (example_platform {PERF_RECORD_SAMPLE}) \<and>
   (case ProcessEvents (example_platform {PERF_RECORD_SAMPLE}) (example_options False 0)
           (new_PerfParser []) of
      Some (ok, st') \<Rightarrow> \<not> ok \<and> num_sample_events (stats st') = 0
    | None \<Rightarrow> False)"
  by (simp add: ProcessEvents_def ProcessEvents_loop.simps FillInDsoBuildIds_def Let_def
        example_platform_def example_options_def new_PerfParser_def zero_stats_def)

section \<open>The resolved call chain (claim C1)\<close>







section \<open>Counting a sample as mapped (claim C8)\<close>

lemma sample_event_upd_sample [simp]: "sample_event (upd_sample f e) = f (sample_event e)"
  by (simp add: upd_sample_def sample_event_def)

lemma has_sample_event_upd_sample [simp]: "has_sample_event (upd_sample f e)"
  by (simp add: upd_sample_def has_sample_event_def)

lemma header_upd_sample [simp]:
  "header_type (upd_sample f e) = header_type e" "header_misc (upd_sample f e) = header_misc e"
  by (simp_all add: upd_sample_def)

lemma nth_upd_event:
  "events (upd_event p f st) ! q =
     (if q = p \<and> p < length (events st) then f (events st ! p) else events st ! q)"
  by (cases "q = p"; cases "p < length (events st)")
     (simp_all add: upd_event_def list_update_beyond)

text \<open>
  A field of the sample that a write \<open>f\<close> to the sample does not change reads the same
  after the write, at every event.
\<close>

lemma sample_field_upd_event:
  "(\<And>s. g (f s) = g s) \<Longrightarrow>
     g (sample_event (events (upd_event p (upd_sample f) st) ! q)) = g (sample_event (events st ! q))"
  by (simp add: nth_upd_event)

lemma same_stacks_trans: "same_stacks ptr a b \<Longrightarrow> same_stacks ptr b c \<Longrightarrow> same_stacks ptr a c"
  by (simp add: same_stacks_def)

lemma same_frame_stacks: "same_frame st st' \<Longrightarrow> same_stacks ptr st st'"
  by (simp add: same_frame_def same_stacks_def)

lemma MapSampleEvent_command_stacks: "same_stacks ptr st (MapSampleEvent_command cur pidtid st)"
  by (simp add: MapSampleEvent_command_def same_stacks_def split: option.splits)

lemma MapSampleEvent_ip_stacks:
  "MapSampleEvent_ip env options cur ptr pidtid st = Some (ok, st') \<Longrightarrow> same_stacks ptr st st'"
  by (auto simp: MapSampleEvent_ip_def Let_def same_stacks_def same_frame_def sample_field_upd_event
           split: option.splits if_splits dest!: MapIP_frame)

lemma MapSampleEvent_addr_stacks:
  "MapSampleEvent_addr env options cur ptr pidtid st = Some (ok, st') \<Longrightarrow> same_stacks ptr st st'"
  by (auto simp: MapSampleEvent_addr_def Let_def same_stacks_def same_frame_def sample_field_upd_event
           split: option.splits if_splits dest!: MapIP_frame)

lemma MapSampleEvent_callchain_stacks:
  "MapSampleEvent_callchain env options cur ptr pidtid ip st = Some (ok, st') \<Longrightarrow> same_stacks ptr st st'"
  by (auto simp: MapSampleEvent_callchain_def Let_def same_stacks_def same_frame_def
                 sample_field_upd_event
           split: option.splits if_splits dest!: MapCallchain_frame)

lemma MapSampleEvent_branch_stack_stats:
  "MapSampleEvent_branch_stack env options cur ptr pidtid st = Some (ok, st') \<Longrightarrow> stats st' = stats st"
  by (auto simp: MapSampleEvent_branch_stack_def Let_def same_frame_def
           split: option.splits if_splits dest!: MapBranchStack_frame)



lemma MapSampleEvent_command_events [simp]:
  "events (MapSampleEvent_command cur pidtid st) = events st"
  by (simp add: MapSampleEvent_command_def split: option.splits)



section \<open>A malformed branch stack (claim C3)\<close>

lemma malformed_branch_stack_check:
  assumes "malformed_branch_stack bs"
  shows "list_ex (\<lambda>entry. \<not> IsNullBranchStackEntry entry)
           (drop (length (takeWhile (\<lambda>entry. \<not> IsNullBranchStackEntry entry) bs)) bs)"
proof -
  let ?P = "\<lambda>entry. \<not> IsNullBranchStackEntry entry"
  let ?t = "length (takeWhile ?P bs)"
  from assms obtain i j where ij: "i < j" "j < length bs"
    "IsNullBranchStackEntry (bs ! i)" "\<not> IsNullBranchStackEntry (bs ! j)"
    by (auto simp: malformed_branch_stack_def)
  have "?t \<le> i"
  proof (rule ccontr)
    assume "\<not> ?t \<le> i"
    then have lt: "i < ?t" by simp
    then have "takeWhile ?P bs ! i \<in> set (takeWhile ?P bs)" by simp
    then have "?P (takeWhile ?P bs ! i)" by (rule set_takeWhileD[THEN conjunct2])
    with lt ij(3) show False by (simp add: takeWhile_nth)
  qed
  with ij have "?t \<le> j" "drop ?t bs ! (j - ?t) = bs ! j" "j - ?t < length (drop ?t bs)"
    by simp_all
  with ij(4) have "\<exists>x \<in> set (drop ?t bs). ?P x"
    by (metis nth_mem)
  then show ?thesis by (simp add: list_ex_iff)
qed

lemma MapBranchStack_malformed:
  "malformed_branch_stack bs \<Longrightarrow>
     MapBranchStack env options pidtid bs pbs st = Some ((False, bs, pbs), st)"
  by (simp add: MapBranchStack_def Let_def malformed_branch_stack_check)

lemma malformed_branch_stack_nonempty: "malformed_branch_stack bs \<Longrightarrow> bs \<noteq> []"
  by (auto simp: malformed_branch_stack_def)

lemma ParseRawEvents_returns_true: "ParseRawEvents env options st = Some (ok, st') \<Longrightarrow> ok"
  by (auto simp: ParseRawEvents_def Let_def split: option.splits if_splits)

text \<open>
  Claim C3, as the code has it. A SAMPLE event whose branch stack has a non-null entry
  behind a null entry does not abort the parse. \<open>MapBranchStack\<close> returns \<open>false\<close>
  to \<open>MapSampleEvent\<close>, which returns nothing: the iteration of \<open>ProcessEvents\<close> on
  the record, when it ends, counts the sample in \<open>num_sample_events\<close>, leaves it out
  of \<open>num_sample_events_mapped\<close>, and the loop goes on with the next record. The
  top-level entry \<open>ParseRawEvents\<close> returns \<open>true\<close> whenever it returns.
\<close>

theorem C3_malformed_branch_stack_marks_sample_unmapped:
  assumes "ptr = event_ptr (parsed_events st ! i)"
    and "header_type (events st ! ptr) = PERF_RECORD_SAMPLE"
    and "has_sample_event (events st ! ptr)"
    and "malformed_branch_stack (sample_branch_stack (sample_event (events st ! ptr)))"
    and "ProcessEvent env options i first_kernel_mmap st = Some (go_on, first_kernel_mmap', st')"
  shows "go_on \<and> first_kernel_mmap' = first_kernel_mmap \<and>
         num_sample_events (stats st') = num_sample_events (stats st) + 1 \<and>
         num_sample_events_mapped (stats st') = num_sample_events_mapped (stats st) \<and>
         (\<forall>st0 ok st0'. ParseRawEvents env options st0 = Some (ok, st0') \<longrightarrow> ok)"
proof -
  let ?st1 = "upd_stats (\<lambda>s. s\<lparr>num_sample_events := num_sample_events s + 1\<rparr>) st"
  let ?bs = "sample_branch_stack (sample_event (events st ! ptr))"
  from assms(1,2,5) have v: "ptr < length (events st)"
    by (simp add: ProcessEvent_def Let_def split: if_splits)
  from assms(1,2,3,5) v obtain r where
    m: "MapSampleEvent_main env options i ptr ?st1 = Some (r, st')"
    and g: "go_on" "first_kernel_mmap' = first_kernel_mmap"
    by (auto simp: ProcessEvent_def MapSampleEvent_def Let_def split: option.splits)
  from m show ?thesis
  proof (cases rule: MapSampleEvent_main_cases)
    case (1 ok_ip st3 ok_addr st4 ok_cc st5 ok_bs st6)
    let ?pidtid = "(sample_pid (sample_event (events ?st1 ! ptr)),
                    sample_tid (sample_event (events ?st1 ! ptr)))"
    have s5: "same_stacks ptr ?st1 st5"
      using MapSampleEvent_command_stacks[of ptr ?st1 i ?pidtid]
        MapSampleEvent_ip_stacks[OF 1(1)] MapSampleEvent_addr_stacks[OF 1(2)]
        MapSampleEvent_callchain_stacks[OF 1(3)]
      by (blast intro: same_stacks_trans)
    then have b5: "sample_branch_stack (sample_event (events st5 ! ptr)) = ?bs"
      by (simp add: same_stacks_def)
    with assms(4) 1(4) have "\<not> ok_bs"
      by (auto simp: MapSampleEvent_branch_stack_def Let_def MapBranchStack_malformed
            malformed_branch_stack_nonempty)
    with 1(6) have "st' = st6" by simp
    with MapSampleEvent_branch_stack_stats[OF 1(4)] s5
    have "num_sample_events (stats st') = num_sample_events (stats st) + 1"
      "num_sample_events_mapped (stats st') = num_sample_events_mapped (stats st)"
      by (simp_all add: same_stacks_def)
    with g show ?thesis by (auto dest: ParseRawEvents_returns_true)
  qed
qed

theorem C3_malformed_branch_stack_marks_sample_unmapped_witness:
  "(case ProcessEvent (example_platform {}) (example_options False 95) 1 True c3_state of
      Some (go_on, fk, st') \<Rightarrow>
        go_on \<and> num_sample_events (stats st') = 1 \<and> num_sample_events_mapped (stats st') = 0
    | None \<Rightarrow> False)"
proof -
  let ?r = "ProcessEvent (example_platform {}) (example_options False 95) 1 True c3_state"
  have "(case ?r of Some x \<Rightarrow> True | None \<Rightarrow> False)" by code_simp
  then obtain go_on fk st' where r: "?r = Some (go_on, fk, st')"
    by (auto split: option.splits)
  have 1: "1 = event_ptr (parsed_events c3_state ! 1)"
    by (simp add: c3_state_def parsed_at_def default_ParsedEvent_def)
  have 2: "header_type (events c3_state ! 1) = PERF_RECORD_SAMPLE"
    by (simp add: c3_state_def new_PerfParser_def sample_record_def)
  have 3: "has_sample_event (events c3_state ! 1)"
    by (simp add: c3_state_def new_PerfParser_def sample_record_def has_sample_event_def)
  have "malformed_branch_stack malformed_stack"
    unfolding malformed_branch_stack_def
    by (rule exI[of _ 1], rule exI[of _ 2])
       (simp add: malformed_stack_def branch_def IsNullBranchStackEntry_def)
  then have 4: "malformed_branch_stack (sample_branch_stack (sample_event (events c3_state ! 1)))"
    by (simp add: c3_state_def new_PerfParser_def sample_record_def sample_event_def)
  have z: "num_sample_events (stats c3_state) = 0" "num_sample_events_mapped (stats c3_state) = 0"
    by (simp_all add: c3_state_def new_PerfParser_def zero_stats_def)
  from C3_malformed_branch_stack_marks_sample_unmapped[OF 1 2 3 4 r] r z show ?thesis by simp
qed

text \<open>
  The claim as it was stated fails: the records MMAP \<open>/bin/x\<close>, a SAMPLE in it with
  that branch stack and a COMM are parsed to the end. The top-level entry returns
  \<open>true\<close>; the sample is counted and not counted as mapped, its branch stack is left
  as it was, and the COMM record behind it is processed.
\<close>

theorem C3_parse_not_aborted_counterexample:
  "(case ParseRawEvents (example_platform {}) (example_options False 95)
           (new_PerfParser
              [mmap_record PERF_RECORD_MMAP 2 7 0x1000 0x1000 0 ''/bin/x'',
               sample_record 7 7 0x1100 None [] malformed_stack,
               comm_record 7 7 ''a'']) of
      Some (ok, st) \<Rightarrow>
        ok \<and> num_sample_events (stats st) = 1 \<and> num_sample_events_mapped (stats st) = 0 \<and>
        num_comm_events (stats st) = 1 \<and>
        sample_branch_stack (sample_event (events st ! 1)) = malformed_stack \<and>
        pidtid_to_comm_map st (7, 7) = Some ''a''
    | None \<Rightarrow> False)"
  by code_simp

section \<open>Parsing without remapping (claim C5)\<close>

lemma same_addresses_refl: "same_addresses st st"
  by (simp add: same_addresses_def)

lemma same_addresses_trans: "same_addresses a b \<Longrightarrow> same_addresses b c \<Longrightarrow> same_addresses a c"
  by (simp add: same_addresses_def)

lemma same_frame_addresses: "same_frame st st' \<Longrightarrow> same_addresses st st'"
  by (simp add: same_frame_def same_addresses_def)

lemma same_addresses_upd [simp]:
  "same_addresses st (upd_parsed i f st') = same_addresses st st'"
  "same_addresses st (upd_stats g st') = same_addresses st st'"
  "same_addresses (upd_parsed i f st) st' = same_addresses st st'"
  "same_addresses (upd_stats g st) st' = same_addresses st st'"
  by (simp_all add: same_addresses_def)

lemma same_addresses_upd_event:
  assumes "addr_fields (f (events st ! p)) = addr_fields (events st ! p)"
  shows "same_addresses st (upd_event p f st)"
  using assms
  by (cases "p < length (events st)")
     (simp_all add: same_addresses_def upd_event_def map_update list_update_same_conv
        list_update_beyond)

lemma addr_fields_upd_sample:
  assumes "has_sample_event e"
    and "sample_ip (f (sample_event e)) = sample_ip (sample_event e)"
    and "sample_addr (f (sample_event e)) = sample_addr (sample_event e)"
  shows "addr_fields (upd_sample f e) = addr_fields e"
  using assms
  by (auto simp: addr_fields_def upd_sample_def has_sample_event_def mmap_event_def sample_event_def
           split: event_payload.splits)

lemma addr_fields_upd_mmap:
  assumes "header_type e = PERF_RECORD_MMAP \<or> header_type e = PERF_RECORD_MMAP2"
  shows "addr_fields (upd_mmap (\<lambda>m. m) e) = addr_fields e"
  using assms
  by (auto simp: addr_fields_def upd_mmap_def mmap_event_def)

lemma MapIP_no_remap:
  assumes "\<not> do_remap options"
    and "MapIPAndPidAndGetNameAndOffset env options ip pidtid new_ip dao st = Some ((True, a, d), st')"
  shows "a = ip"
  using assms(2)
  by (cases rule: MapIP_cases) (use assms(1) in simp_all)

lemma keeps_sample_trans: "keeps_sample ptr a b \<Longrightarrow> keeps_sample ptr b c \<Longrightarrow> keeps_sample ptr a c"
  by (simp add: keeps_sample_def same_addresses_def)

lemma keeps_sample_upd_event:
  assumes "has_sample_event (events st ! ptr)"
    and "sample_ip (f (sample_event (events st ! ptr))) = sample_ip (sample_event (events st ! ptr))"
    and "sample_addr (f (sample_event (events st ! ptr))) = sample_addr (sample_event (events st ! ptr))"
  shows "keeps_sample ptr st (upd_event ptr (upd_sample f) st)"
  using assms
  by (simp add: keeps_sample_def same_addresses_upd_event addr_fields_upd_sample nth_upd_event)

lemma keeps_sample_frame:
  "same_frame st st' \<Longrightarrow> has_sample_event (events st ! ptr) \<Longrightarrow> keeps_sample ptr st st'"
  by (simp add: keeps_sample_def same_frame_def same_addresses_def)

lemma keeps_sample_upd [simp]:
  "keeps_sample ptr st (upd_parsed i f st') = keeps_sample ptr st st'"
  "keeps_sample ptr st (upd_stats g st') = keeps_sample ptr st st'"
  "keeps_sample ptr (upd_parsed i f st) st' = keeps_sample ptr st st'"
  "keeps_sample ptr (upd_stats g st) st' = keeps_sample ptr st st'"
  by (simp_all add: keeps_sample_def)

lemma MapSampleEvent_command_keeps:
  "has_sample_event (events st ! ptr) \<Longrightarrow> keeps_sample ptr st (MapSampleEvent_command cur pidtid st)"
  by (simp add: MapSampleEvent_command_def keeps_sample_def same_addresses_refl split: option.splits)

lemma MapSampleEvent_ip_keeps:
  assumes "MapSampleEvent_ip env options cur ptr pidtid st = Some (ok, st')"
    and "\<not> do_remap options" and "has_sample_event (events st ! ptr)"
  shows "keeps_sample ptr st st'"
proof -
  from assms(1) obtain ok1 a d st1 where
    m: "MapIPAndPidAndGetNameAndOffset env options (sample_ip (sample_event (events st ! ptr)))
          pidtid 0 (dso_and_offset (parsed_events st ! cur)) st = Some ((ok1, a, d), st1)"
    by (auto simp: MapSampleEvent_ip_def split: option.splits)
  note fr = MapIP_frame[OF m]
  let ?st2 = "upd_parsed cur (\<lambda>p. p\<lparr>dso_and_offset := d\<rparr>) st1"
  from fr assms(3) have k2: "keeps_sample ptr st ?st2" by (simp add: keeps_sample_frame)
  show ?thesis
  proof (cases ok1)
    case False
    with assms(1) m have "st' = ?st2" by (simp add: MapSampleEvent_ip_def Let_def)
    with k2 show ?thesis by simp
  next
    case True
    with assms(1) m have st': "st' = upd_event ptr (upd_sample (\<lambda>s. s\<lparr>sample_ip := a\<rparr>)) ?st2"
      by (simp add: MapSampleEvent_ip_def Let_def)
    from True m have "MapIPAndPidAndGetNameAndOffset env options (sample_ip (sample_event (events st ! ptr)))
          pidtid 0 (dso_and_offset (parsed_events st ! cur)) st = Some ((True, a, d), st1)"
      by simp
    from MapIP_no_remap[OF assms(2) this] have a: "a = sample_ip (sample_event (events st ! ptr))" .
    from fr have e: "events st1 = events st" by (simp add: same_frame_def)
    have "keeps_sample ptr ?st2 (upd_event ptr (upd_sample (\<lambda>s. s\<lparr>sample_ip := a\<rparr>)) ?st2)"
      by (rule keeps_sample_upd_event) (simp_all add: e a assms(3))
    with k2 st' show ?thesis by (blast intro: keeps_sample_trans)
  qed
qed

lemma MapSampleEvent_addr_keeps:
  assumes "MapSampleEvent_addr env options cur ptr pidtid st = Some (ok, st')"
    and "\<not> do_remap options" and "has_sample_event (events st ! ptr)"
  shows "keeps_sample ptr st st'"
proof (cases "sample_addr (sample_event (events st ! ptr))")
  case None
  with assms show ?thesis
    by (simp add: MapSampleEvent_addr_def keeps_sample_def same_addresses_refl)
next
  case (Some addr)
  show ?thesis
  proof (cases "addr = 0")
    case True
    with Some assms show ?thesis
      by (simp add: MapSampleEvent_addr_def keeps_sample_def same_addresses_refl)
  next
    case False
    let ?st1 = "upd_stats (\<lambda>s. s\<lparr>num_data_sample_events := num_data_sample_events s + 1\<rparr>) st"
    from assms(1) Some False obtain ok1 a d st2 where
      m: "MapIPAndPidAndGetNameAndOffset env options addr pidtid 0
            (data_dso_and_offset (parsed_events ?st1 ! cur)) ?st1 = Some ((ok1, a, d), st2)"
      by (auto simp: MapSampleEvent_addr_def Let_def split: option.splits)
    note fr = MapIP_frame[OF m]
    let ?st3 = "upd_parsed cur (\<lambda>p. p\<lparr>data_dso_and_offset := d\<rparr>) st2"
    from fr have e: "events st2 = events st" by (simp add: same_frame_def)
    from e assms(3) have k3: "keeps_sample ptr st ?st3"
      by (simp add: keeps_sample_def same_addresses_def)
    show ?thesis
    proof (cases ok1)
      case f: False
      with assms(1) Some False m have "st' = ?st3"
        by (simp add: MapSampleEvent_addr_def Let_def)
      with k3 show ?thesis by simp
    next
      case True
      let ?st4 = "upd_stats (\<lambda>s. s\<lparr>num_data_sample_events_mapped :=
                                     num_data_sample_events_mapped s + 1\<rparr>) ?st3"
      from True assms(1) Some False m
      have st': "st' = upd_event ptr (upd_sample (\<lambda>s. s\<lparr>sample_addr := Some a\<rparr>)) ?st4"
        by (simp add: MapSampleEvent_addr_def Let_def)
      from True m have "MapIPAndPidAndGetNameAndOffset env options addr pidtid 0
            (data_dso_and_offset (parsed_events ?st1 ! cur)) ?st1 = Some ((True, a, d), st2)"
        by simp
      from MapIP_no_remap[OF assms(2) this] have a: "a = addr" .
      have "keeps_sample ptr ?st4 (upd_event ptr (upd_sample (\<lambda>s. s\<lparr>sample_addr := Some a\<rparr>)) ?st4)"
        by (rule keeps_sample_upd_event) (simp_all add: e a Some assms(3))
      with k3 st' show ?thesis by (auto intro: keeps_sample_trans)
    qed
  qed
qed

lemma MapSampleEvent_callchain_keeps:
  assumes "MapSampleEvent_callchain env options cur ptr pidtid ip st = Some (ok, st')"
    and "has_sample_event (events st ! ptr)"
  shows "keeps_sample ptr st st'"
proof (cases "sample_callchain (sample_event (events st ! ptr)) = []")
  case True
  with assms show ?thesis
    by (simp add: MapSampleEvent_callchain_def keeps_sample_def same_addresses_refl)
next
  case False
  with assms(1) obtain cc pcc st1 where
    m: "MapCallchain env options (sample_ip (sample_event (events st ! ptr))) pidtid ip
          (sample_callchain (sample_event (events st ! ptr))) (callchain (parsed_events st ! cur)) st
          = Some ((ok, cc, pcc), st1)"
    and st': "st' = upd_event ptr (upd_sample (\<lambda>s. s\<lparr>sample_callchain := cc\<rparr>))
                      (upd_parsed cur (\<lambda>p. p\<lparr>callchain := pcc\<rparr>) st1)"
    by (auto simp: MapSampleEvent_callchain_def Let_def split: option.splits)
  let ?st2 = "upd_parsed cur (\<lambda>p. p\<lparr>callchain := pcc\<rparr>) st1"
  from MapCallchain_frame[OF m] have e: "events st1 = events st" by (simp add: same_frame_def)
  from e assms(2) have k2: "keeps_sample ptr st ?st2"
    by (simp add: keeps_sample_def same_addresses_def)
  have "keeps_sample ptr ?st2 (upd_event ptr (upd_sample (\<lambda>s. s\<lparr>sample_callchain := cc\<rparr>)) ?st2)"
    by (rule keeps_sample_upd_event) (simp_all add: e assms(2))
  with k2 st' show ?thesis by (auto intro: keeps_sample_trans)
qed

lemma MapSampleEvent_branch_stack_keeps:
  assumes "MapSampleEvent_branch_stack env options cur ptr pidtid st = Some (ok, st')"
    and "has_sample_event (events st ! ptr)"
  shows "keeps_sample ptr st st'"
proof (cases "sample_branch_stack (sample_event (events st ! ptr)) = []")
  case True
  with assms show ?thesis
    by (simp add: MapSampleEvent_branch_stack_def keeps_sample_def same_addresses_refl)
next
  case False
  with assms(1) obtain bs pbs st1 where
    m: "MapBranchStack env options pidtid (sample_branch_stack (sample_event (events st ! ptr)))
          (branch_stack (parsed_events st ! cur)) st = Some ((ok, bs, pbs), st1)"
    and st': "st' = upd_event ptr (upd_sample (\<lambda>s. s\<lparr>sample_branch_stack := bs\<rparr>))
                      (upd_parsed cur (\<lambda>p. p\<lparr>branch_stack := pbs\<rparr>) st1)"
    by (auto simp: MapSampleEvent_branch_stack_def Let_def split: option.splits)
  let ?st2 = "upd_parsed cur (\<lambda>p. p\<lparr>branch_stack := pbs\<rparr>) st1"
  from MapBranchStack_frame[OF m] have e: "events st1 = events st" by (simp add: same_frame_def)
  from e assms(2) have k2: "keeps_sample ptr st ?st2"
    by (simp add: keeps_sample_def same_addresses_def)
  have "keeps_sample ptr ?st2 (upd_event ptr (upd_sample (\<lambda>s. s\<lparr>sample_branch_stack := bs\<rparr>)) ?st2)"
    by (rule keeps_sample_upd_event) (simp_all add: e assms(2))
  with k2 st' show ?thesis by (auto intro: keeps_sample_trans)
qed

lemma MapSampleEvent_main_addresses:
  assumes "MapSampleEvent_main env options cur ptr st = Some (r, st')"
    and "\<not> do_remap options" and "has_sample_event (events st ! ptr)"
  shows "same_addresses st st'"
  using assms(1)
proof (cases rule: MapSampleEvent_main_cases)
  case (1 ok_ip st3 ok_addr st4 ok_cc st5 ok_bs st6)
  let ?pidtid = "(sample_pid (sample_event (events st ! ptr)), sample_tid (sample_event (events st ! ptr)))"
  let ?st0 = "MapSampleEvent_command cur ?pidtid st"
  have k0: "keeps_sample ptr st ?st0" by (rule MapSampleEvent_command_keeps[OF assms(3)])
  then have h0: "has_sample_event (events ?st0 ! ptr)" by (simp add: keeps_sample_def)
  from MapSampleEvent_ip_keeps[OF 1(1) assms(2) h0] k0 have k3: "keeps_sample ptr st st3"
    by (blast intro: keeps_sample_trans)
  then have h3: "has_sample_event (events st3 ! ptr)" by (simp add: keeps_sample_def)
  from MapSampleEvent_addr_keeps[OF 1(2) assms(2) h3] k3 have k4: "keeps_sample ptr st st4"
    by (blast intro: keeps_sample_trans)
  then have h4: "has_sample_event (events st4 ! ptr)" by (simp add: keeps_sample_def)
  from MapSampleEvent_callchain_keeps[OF 1(3) h4] k4 have k5: "keeps_sample ptr st st5"
    by (blast intro: keeps_sample_trans)
  then have h5: "has_sample_event (events st5 ! ptr)" by (simp add: keeps_sample_def)
  from MapSampleEvent_branch_stack_keeps[OF 1(4) h5] k5 have "keeps_sample ptr st st6"
    by (blast intro: keeps_sample_trans)
  with 1(6) show ?thesis by (simp add: keeps_sample_def)
qed

lemma MapSampleEvent_addresses:
  "MapSampleEvent env options cur st = Some st' \<Longrightarrow> \<not> do_remap options \<Longrightarrow> same_addresses st st'"
  by (auto simp: MapSampleEvent_def Let_def same_addresses_refl split: if_splits
           dest: MapSampleEvent_main_addresses)

lemma MapMmapEvent_events:
  "MapMmapEvent env options ptr ident is_kernel st = (ok, st') \<Longrightarrow> \<not> do_remap options \<Longrightarrow>
     events st' = events st"
  using GetOrCreateProcessMapper_frame[of env "mmap_pid (mmap_event (events st ! ptr))" "kKernelPid env" st]
  by (auto simp: MapMmapEvent_def Let_def split: prod.splits if_splits)

lemma ProcessMmapEvent_addresses:
  assumes "ProcessMmapEvent env options i ptr fk st = Some (c, fk', st')"
    and "\<not> do_remap options"
    and "header_type (events st ! ptr) = PERF_RECORD_MMAP \<or> header_type (events st ! ptr) = PERF_RECORD_MMAP2"
  shows "same_addresses st st'"
proof -
  let ?st2 = "upd_event ptr (upd_mmap (\<lambda>m. m))
                (upd_stats (\<lambda>s. s\<lparr>num_mmap_events := num_mmap_events s + 1\<rparr>) st)"
  have a2: "same_addresses st ?st2"
    using same_addresses_upd_event[of "upd_mmap (\<lambda>m. m)"
            "upd_stats (\<lambda>s. s\<lparr>num_mmap_events := num_mmap_events s + 1\<rparr>) st" ptr]
      addr_fields_upd_mmap[OF assms(3)]
    by simp
  from assms(1) obtain is_kernel st3 where
    m: "MapMmapEvent env options ptr (of_nat i) is_kernel ?st2 = (True, st3)"
    and e: "events st' = events st3"
    by (auto simp: ProcessMmapEvent_def Let_def split: prod.splits if_splits)
  from MapMmapEvent_events[OF m assms(2)] e a2 show ?thesis
    by (simp add: same_addresses_def)
qed

lemma GetOrCreateProcessMapper_events [simp]:
  "events (snd (GetOrCreateProcessMapper env pid ppid st)) = events st"
  by (simp add: GetOrCreateProcessMapper_def Let_def split: option.splits)

lemma MapForkEvent_events [simp]: "events (snd (MapForkEvent env event st)) = events st"
  by (simp add: MapForkEvent_def Let_def split: option.splits)

lemma MapCommEvent_events [simp]: "events (snd (MapCommEvent env event st)) = events st"
  by (simp add: MapCommEvent_def)

lemma ProcessEvent_addresses:
  assumes "ProcessEvent env options i fk st = Some (c, fk', st')" and "\<not> do_remap options"
  shows "same_addresses st st'"
proof -
  let ?ptr = "event_ptr (parsed_events st ! i)"
  let ?t = "header_type (events st ! ?ptr)"
  from assms(1) have v: "?ptr < length (events st)"
    by (simp add: ProcessEvent_def Let_def split: if_splits)
  consider (user) "is_user_type ?t"
    | (sample) "\<not> is_user_type ?t" "?t = PERF_RECORD_SAMPLE"
    | (mmap) "\<not> is_user_type ?t" "?t = PERF_RECORD_MMAP \<or> ?t = PERF_RECORD_MMAP2"
    | (fork) "\<not> is_user_type ?t" "?t = PERF_RECORD_FORK"
    | (exit) "\<not> is_user_type ?t" "?t = PERF_RECORD_EXIT"
    | (comm) "\<not> is_user_type ?t" "?t = PERF_RECORD_COMM"
    | (other) "\<not> is_user_type ?t" "?t \<noteq> PERF_RECORD_SAMPLE" "?t \<noteq> PERF_RECORD_MMAP"
        "?t \<noteq> PERF_RECORD_MMAP2" "?t \<noteq> PERF_RECORD_FORK" "?t \<noteq> PERF_RECORD_EXIT"
        "?t \<noteq> PERF_RECORD_COMM"
    by blast
  then show ?thesis
  proof cases
    case user
    with assms v show ?thesis
      by (simp add: ProcessEvent_def Let_def ProcessUserEvents_def same_addresses_refl)
  next
    case sample
    with assms v have
      "MapSampleEvent env options i
         (upd_stats (\<lambda>s. s\<lparr>num_sample_events := num_sample_events s + 1\<rparr>) st) = Some st'"
      by (auto simp: ProcessEvent_def Let_def split: option.splits)
    from MapSampleEvent_addresses[OF this assms(2)] show ?thesis by simp
  next
    case mmap
    with assms v have "ProcessMmapEvent env options i ?ptr fk st = Some (c, fk', st')"
      by (auto simp: ProcessEvent_def Let_def)
    from ProcessMmapEvent_addresses[OF this assms(2) mmap(2)] show ?thesis .
  next
    case fork
    with assms v have "events st' = events st"
      by (auto simp: ProcessEvent_def Let_def split: prod.splits if_splits
               dest!: arg_cong[where f = "\<lambda>r. events (snd r)"])
    then show ?thesis by (simp add: same_addresses_def)
  next
    case exit
    with assms v show ?thesis by (auto simp: ProcessEvent_def Let_def same_addresses_def)
  next
    case comm
    with assms v have "events st' = events st"
      by (auto simp: ProcessEvent_def Let_def split: prod.splits if_splits
               dest!: arg_cong[where f = "\<lambda>r. events (snd r)"])
    then show ?thesis by (simp add: same_addresses_def)
  next
    case other
    with assms v show ?thesis
      by (auto simp: ProcessEvent_def Let_def same_addresses_refl split: if_splits)
  qed
qed

lemma ProcessEvents_loop_shape:
  "ProcessEvents_loop env options i fk st = Some (r, st') \<Longrightarrow> same_shape st st'"
proof (induction env options i fk st rule: ProcessEvents_loop.induct)
  case (1 env options i fk st)
  note prems = "1.prems"[unfolded ProcessEvents_loop.simps[of env options i]]
  show ?case
  proof (cases "i < length (parsed_events st)")
    case False
    with prems show ?thesis by (simp add: same_shape_refl)
  next
    case True
    with prems obtain go fk1 st1 where
      b: "ProcessEvent env options i fk st = Some (go, fk1, st1)"
      by (auto split: option.splits)
    show ?thesis
    proof (cases go)
      case False
      with True b prems have "st' = st1" by simp
      with ProcessEvent_shape[OF b] show ?thesis by simp
    next
      case g: True
      with True b prems have l: "ProcessEvents_loop env options (i + 1) fk1 st1 = Some (r, st')"
        by simp
      from "1.IH" True b g l have "same_shape st1 st'" by simp
      with ProcessEvent_shape[OF b] show ?thesis by (rule same_shape_trans)
    qed
  qed
qed

lemma ProcessEvents_loop_addresses:
  "ProcessEvents_loop env options i fk st = Some (r, st') \<Longrightarrow> \<not> do_remap options \<Longrightarrow>
     same_addresses st st'"
proof (induction env options i fk st rule: ProcessEvents_loop.induct)
  case (1 env options i fk st)
  note prems = "1.prems"(1)[unfolded ProcessEvents_loop.simps[of env options i]]
  show ?case
  proof (cases "i < length (parsed_events st)")
    case False
    with prems show ?thesis by (simp add: same_addresses_refl)
  next
    case True
    with prems obtain go fk1 st1 where
      b: "ProcessEvent env options i fk st = Some (go, fk1, st1)"
      by (auto split: option.splits)
    note a = ProcessEvent_addresses[OF b "1.prems"(2)]
    show ?thesis
    proof (cases go)
      case False
      with True b prems have "st' = st1" by simp
      with a show ?thesis by simp
    next
      case g: True
      with True b prems have l: "ProcessEvents_loop env options (i + 1) fk1 st1 = Some (r, st')"
        by simp
      from "1.IH" True b g l "1.prems"(2) have "same_addresses st1 st'" by simp
      with a show ?thesis by (rule same_addresses_trans)
    qed
  qed
qed

lemma FillInDsoBuildIds_frame:
  "events (snd (FillInDsoBuildIds env options st)) = events st \<and>
   parsed_events (snd (FillInDsoBuildIds env options st)) = parsed_events st"
  by (simp add: FillInDsoBuildIds_def Let_def)

lemma ProcessEvents_keeps:
  assumes "ProcessEvents env options st = Some (r, st')"
  shows "same_shape st st' \<and> (\<not> do_remap options \<longrightarrow> same_addresses st st')"
proof -
  let ?st1 = "st\<lparr>stats := zero_stats,
                  commands := insert kSwapperCommandName (commands st),
                  pidtid_to_comm_map :=
                    (pidtid_to_comm_map st)((kSwapperPid, kSwapperPid) \<mapsto> kSwapperCommandName)\<rparr>"
  from assms obtain finished st2 where
    l: "ProcessEvents_loop env options 0 True ?st1 = Some (finished, st2)"
    and e: "events st' = events st2" "parsed_events st' = parsed_events st2"
    using FillInDsoBuildIds_frame[of env options]
    by (auto simp: ProcessEvents_def Let_def split: option.splits prod.splits if_splits
             dest!: arg_cong[where f = snd])
  from ProcessEvents_loop_shape[OF l] e have "same_shape st st'"
    by (simp add: same_shape_def)
  moreover have "same_addresses st st'" if "\<not> do_remap options"
    using ProcessEvents_loop_addresses[OF l that] e by (simp add: same_addresses_def)
  ultimately show ?thesis by simp
qed

text \<open>
  Claim C5. A parse with \<open>do_remap = false\<close> and the huge-page and combine pre-passes
  off: when \<open>ParseRawEvents\<close> returns, the records it has retained are records of the
  input, in their order (the input is the reader's list, after the reader's sort by
  time when that option is on), and each has the type, the MMAP fields \<open>start\<close>,
  \<open>len\<close>, \<open>pgoff\<close> and the sample fields \<open>ip\<close>, \<open>addr\<close> of the input record.
  When unused events are not discarded, every record of the input is retained.
\<close>

theorem C5_no_remap_keeps_addresses:
  assumes "\<not> do_remap options"
    and "\<not> deduce_huge_page_mappings options"
    and "\<not> combine_mappings options"
    and "input = (if sort_events_by_time options then MaybeSortEventsByTime env (events st)
                  else events st)"
    and "ParseRawEvents env options st = Some (ok, st')"
  shows "subseq (map addr_fields (events st')) (map addr_fields input) \<and>
         (\<not> discard_unused_events options \<longrightarrow>
            map addr_fields (events st') = map addr_fields input)"
proof -
  let ?st5 = "ParseRawEvents_prepare env options st"
  from assms(2-4) have ev5: "events ?st5 = input"
    by (simp add: ParseRawEvents_prepare_def Let_def)
  from assms(2-4) have pt5: "map event_ptr (parsed_events ?st5) =
               filter (\<lambda>i. header_type (input ! i) \<noteq> PERF_RECORD_FINISHED_ROUND) [0..<length input]"
    by (simp add: ParseRawEvents_prepare_def Let_def comp_def)
  from assms(5) obtain processed st6 where
    p: "ProcessEvents env options ?st5 = Some (processed, st6)"
    by (cases "ProcessEvents env options ?st5") (auto simp: ParseRawEvents_def)
  with assms(5) have res: "st' = (if \<not> discard_unused_events options then st6
                                  else ParseRawEvents_discard st6)"
    by (simp add: ParseRawEvents_def split: if_splits)
  from ProcessEvents_keeps[OF p] assms(1) ev5 pt5
  have a6: "map addr_fields (events st6) = map addr_fields input"
    and pt6: "map event_ptr (parsed_events st6) =
                filter (\<lambda>i. header_type (input ! i) \<noteq> PERF_RECORD_FINISHED_ROUND) [0..<length input]"
    by (simp_all add: same_shape_def same_addresses_def)
  from a6 have l6: "length (events st6) = length input" by (rule map_eq_imp_length_eq)
  show ?thesis
  proof (cases "discard_unused_events options")
    case False
    with res a6 show ?thesis by simp
  next
    case True
    define kept where
      "kept = filter (\<lambda>event. \<not> (has_mmap_event (events st6 ! event_ptr event) \<and>
                                   num_samples_in_mmap_region event = 0)) (parsed_events st6)"
    define ks where "ks = map event_ptr kept"
    define A where "A = map addr_fields (events st6)"
    from True res have ev': "events st' = map (\<lambda>pe. events st6 ! event_ptr pe) kept"
      by (simp add: ParseRawEvents_discard_def UpdatePerfEventsFromParsedEvents_def kept_def)
    have "subseq ks (map event_ptr (parsed_events st6))"
      unfolding ks_def kept_def by (intro subseq_map subseq_filter_left)
    also have "subseq (map event_ptr (parsed_events st6)) [0..<length input]"
      unfolding pt6 by (rule subseq_filter_left)
    finally have sk: "subseq ks [0..<length input]" .
    have bound: "k < length (events st6)" if "k \<in> set ks" for k
    proof -
      from sk that obtain y where "y \<in> set [0..<length input]" "k = y"
        by (rule list_emb_set)
      with l6 show ?thesis by simp
    qed
    have "map addr_fields (events st') = map (\<lambda>k. addr_fields (events st6 ! k)) ks"
      by (simp add: ev' ks_def comp_def)
    also have "\<dots> = map (nth A) ks"
      by (rule map_cong[OF refl]) (simp add: A_def bound)
    finally have m: "map addr_fields (events st') = map (nth A) ks" .
    have "length A = length input" by (simp add: A_def l6)
    with sk have "subseq (map (nth A) ks) (map (nth A) [0..<length A])"
      by (intro subseq_map) simp
    then have "subseq (map (nth A) ks) A" by (simp add: map_nth)
    with m a6 True show ?thesis by (simp add: A_def)
  qed
qed

theorem C5_no_remap_keeps_addresses_witness:
  "(case ParseRawEvents (example_platform {}) c5_options (new_PerfParser c5_events) of
      Some (ok, st') \<Rightarrow>
        length (events st') = 3 \<and>
        subseq (map addr_fields (events st')) (map addr_fields c5_events)
    | None \<Rightarrow> False)"
proof -
  let ?r = "ParseRawEvents (example_platform {}) c5_options (new_PerfParser c5_events)"
  have "(case ?r of Some (ok, st') \<Rightarrow> length (events st') = 3 | None \<Rightarrow> False)" by code_simp
  then obtain ok st' where r: "?r = Some (ok, st')" and n: "length (events st') = 3"
    by (auto split: option.splits)
  have 1: "\<not> do_remap c5_options" "\<not> deduce_huge_page_mappings c5_options"
    "\<not> combine_mappings c5_options"
    by (simp_all add: c5_options_def example_options_def)
  have 2: "c5_events = (if sort_events_by_time c5_options
                        then MaybeSortEventsByTime (example_platform {}) (events (new_PerfParser c5_events))
                        else events (new_PerfParser c5_events))"
    by (simp add: c5_options_def example_options_def new_PerfParser_def)
  from C5_no_remap_keeps_addresses[OF 1 2 r] r n show ?thesis by simp
qed

end
